theory Spec2Isabelle
  imports Main
begin

text \<open>
  The item API of the inventory application: the router (\<^verbatim>\<open>apps/api/router.js\<close>) with its
  validation middleware, and the Mongoose model of an item with its schema. The router is
  embedded route by route. The library calls it makes (express-validator and validator.js
  for the checks and sanitizers, Mongoose for casting, schema validation and the four
  storage calls, Express for the dispatch) are embedded after the documented behaviour of
  those libraries, each next to the call that uses it.
\<close>

section \<open>Request bodies\<close>

text \<open>
  The API parses request bodies with \<^verbatim>\<open>express.json()\<close>, so \<^verbatim>\<open>req.body\<close> is a JSON
  object. A body is an association list from field names to values. Values are the JSON
  scalars. \<open>JNum n\<close> is a number written in the JSON text with the integral value \<open>n\<close>;
  what the program holds is the double that \<^verbatim>\<open>JSON.parse\<close> reads from it (\<open>to_double\<close>
  below). Numbers with a fractional part, arrays and nested objects are not modelled.
  Characters are 8-bit code units.
\<close>

datatype jsval = JNull | JBool bool | JNum int | JStr string

type_synonym body = "(string \<times> jsval) list"

definition field :: "body \<Rightarrow> string \<Rightarrow> jsval option" where
  "field b k = map_of b k"

text \<open>Assignment \<^verbatim>\<open>req.body[k] = v\<close>: an existing key keeps its place.\<close>

fun set_field :: "string \<Rightarrow> jsval \<Rightarrow> body \<Rightarrow> body" where
  "set_field k v [] = [(k, v)]"
| "set_field k v ((k', v') # b) =
     (if k' = k then (k, v) # b else (k', v') # set_field k v b)"

section \<open>JavaScript strings and numbers\<close>

text \<open>The characters matched by \<^verbatim>\<open>\s\<close> among the 8-bit code units.\<close>

definition is_space :: "char \<Rightarrow> bool" where
  "is_space c = (c \<in> set [CHR 0x09, CHR 0x0A, CHR 0x0B, CHR 0x0C, CHR 0x0D, CHR 0x20, CHR 0xA0])"

text \<open>validator.js \<^verbatim>\<open>trim(str)\<close> is \<^verbatim>\<open>rtrim(ltrim(str))\<close>.\<close>

definition ltrim :: "string \<Rightarrow> string" where
  "ltrim s = dropWhile is_space s"

definition rtrim :: "string \<Rightarrow> string" where
  "rtrim s = rev (dropWhile is_space (rev s))"

definition trim :: "string \<Rightarrow> string" where
  "trim s = rtrim (ltrim s)"

text \<open>
  validator.js \<^verbatim>\<open>escape(str)\<close> replaces \<^verbatim>\<open>&\<close> first and then the quotes, angle brackets,
  slash, backslash and backtick by HTML entities. No replacement text contains a character
  that a later replacement matches, so the chain of global replacements is a
  character-by-character substitution.
\<close>

definition escape_char :: "char \<Rightarrow> string" where
  "escape_char c =
     (if c = CHR ''&'' then ''&amp;''
      else if c = CHR 0x22 then ''&quot;''
      else if c = CHR 0x27 then ''&#x27;''
      else if c = CHR ''<'' then ''&lt;''
      else if c = CHR ''>'' then ''&gt;''
      else if c = CHR ''/'' then ''&#x2F;''
      else if c = CHR 0x5C then ''&#x5C;''
      else if c = CHR 0x60 then ''&#96;''
      else [c])"

definition escape :: "string \<Rightarrow> string" where
  "escape s = concat (map escape_char s)"

text \<open>
  The numbers of the program are IEEE doubles. The model holds the integral doubles and the
  two infinities; the negative zero is not told from zero.
\<close>

datatype number = Num int | Infinity | NegInfinity

fun negate :: "number \<Rightarrow> number" where
  "negate (Num x) = Num (- x)"
| "negate Infinity = NegInfinity"
| "negate NegInfinity = Infinity"

text \<open>The comparisons \<^verbatim>\<open>x >= 0\<close> and \<^verbatim>\<open>x < m\<close>.\<close>

fun nonneg :: "number \<Rightarrow> bool" where
  "nonneg (Num x) = (0 \<le> x)"
| "nonneg Infinity = True"
| "nonneg NegInfinity = False"

fun below :: "number \<Rightarrow> int \<Rightarrow> bool" where
  "below (Num x) m = (x < m)"
| "below Infinity m = False"
| "below NegInfinity m = True"

text \<open>
  Reading a decimal integer as a double, as \<^verbatim>\<open>JSON.parse\<close> and \<^verbatim>\<open>Number(str)\<close> do: exact
  below \<open>2\<^sup>5\<^sup>3\<close>; above, the nearest number with 53 significant bits, a tie going to the
  even one; infinite when the result does not fit the exponent range.
\<close>

fun bit_length :: "nat \<Rightarrow> nat" where
  "bit_length n = (if n = 0 then 0 else Suc (bit_length (n div 2)))"

declare bit_length.simps [simp del]

definition round_to_double :: "nat \<Rightarrow> nat option" where
  "round_to_double a =
     (if a < 2 ^ 53 then Some a
      else let e = bit_length a - 53;
               m = a div 2 ^ e;
               r = a mod 2 ^ e;
               half = 2 ^ (e - 1);
               v = (if half < r \<or> (r = half \<and> odd m) then m + 1 else m) * 2 ^ e
           in if 2 ^ 1024 \<le> v then None else Some v)"

definition to_double :: "int \<Rightarrow> number" where
  "to_double n =
     (case round_to_double (nat \<bar>n\<bar>) of
        None \<Rightarrow> if n < 0 then NegInfinity else Infinity
      | Some v \<Rightarrow> Num (if n < 0 then - int v else int v))"

text \<open>
  \<^verbatim>\<open>String(x)\<close> for such a number. The digits are those of the decimal number with the
  fewest significant digits that still reads back as \<open>x\<close> (the nearest to \<open>x\<close> among those,
  the even one on a tie); below \<open>2\<^sup>5\<^sup>3\<close> that is \<open>x\<close> itself. The text is in plain
  decimal when that decimal is below \<open>10\<^sup>2\<^sup>1\<close> and in exponent notation from there on
  (mantissa digits without trailing zeros, \<^verbatim>\<open>e+\<close>, exponent).
\<close>

definition digit_char :: "nat \<Rightarrow> char" where
  "digit_char d = ''0123456789'' ! d"

fun digits :: "nat \<Rightarrow> string" where
  "digits n = (if n < 10 then [digit_char n] else digits (n div 10) @ [digit_char (n mod 10)])"

declare digits.simps [simp del]

text \<open>
  The search for the shortest decimal: the multiples of \<open>10\<^sup>j\<close> next to \<open>x\<close> on either
  side, for \<open>j\<close> from the number of digits of \<open>x\<close> downwards.
\<close>

fun shortest :: "nat \<Rightarrow> nat \<Rightarrow> nat" where
  "shortest x j =
     (let p = 10 ^ j;
          lo = (x div p) * p;
          hi = lo + p;
          lo_ok = (0 < lo \<and> round_to_double lo = Some x);
          hi_ok = (round_to_double hi = Some x)
      in if lo_ok \<and> hi_ok
           then (if x - lo < hi - x then lo
                 else if hi - x < x - lo then hi
                 else if even (x div p) then lo else hi)
         else if lo_ok then lo
         else if hi_ok then hi
         else (case j of 0 \<Rightarrow> x | Suc i \<Rightarrow> shortest x i))"

declare shortest.simps [simp del]

definition shortest_decimal :: "nat \<Rightarrow> nat" where
  "shortest_decimal x = (if x < 2 ^ 53 then x else shortest x (length (digits x)))"

definition exponent_form :: "nat \<Rightarrow> string" where
  "exponent_form n =
     (let ds = digits n;
          m = rev (dropWhile (\<lambda>c. c = CHR ''0'') (rev ds))
      in hd m # (if tl m = [] then [] else CHR ''.'' # tl m) @ ''e+'' @ digits (length ds - 1))"

fun js_String :: "number \<Rightarrow> string" where
  "js_String (Num n) =
     (let v = shortest_decimal (nat \<bar>n\<bar>);
          text = (if v < 10 ^ 21 then digits v else exponent_form v)
      in if n < 0 then CHR ''-'' # text else text)"
| "js_String Infinity = ''Infinity''"
| "js_String NegInfinity = ''-Infinity''"

text \<open>
  validator.js \<^verbatim>\<open>isInt(str, {min: 0})\<close>: without \<^verbatim>\<open>allow_leading_zeroes: false\<close> the text
  is matched against \<^verbatim>\<open>/^[-+]?[0-9]+$/\<close>, and \<^verbatim>\<open>str >= 0\<close> compares the number that the
  text denotes.
\<close>

definition is_digit :: "char \<Rightarrow> bool" where
  "is_digit c = (48 \<le> (of_char c :: nat) \<and> (of_char c :: nat) \<le> 57)"

definition digit_val :: "char \<Rightarrow> nat" where
  "digit_val c = of_char c - 48"

definition digits_val :: "string \<Rightarrow> nat" where
  "digits_val ds = foldl (\<lambda>a c. 10 * a + digit_val c) 0 ds"

definition unsigned_int :: "string \<Rightarrow> bool" where
  "unsigned_int s = (s \<noteq> [] \<and> list_all is_digit s)"

definition int_regex :: "string \<Rightarrow> bool" where
  "int_regex s =
     (case s of
        [] \<Rightarrow> False
      | c # r \<Rightarrow> if c = CHR ''-'' \<or> c = CHR ''+'' then unsigned_int r else unsigned_int s)"

text \<open>\<^verbatim>\<open>Number(str)\<close> on a text that matches the pattern above.\<close>

definition js_Number :: "string \<Rightarrow> number" where
  "js_Number s =
     (case s of
        [] \<Rightarrow> Num 0
      | c # r \<Rightarrow> if c = CHR ''-'' then negate (to_double (int (digits_val r)))
                else if c = CHR ''+'' then to_double (int (digits_val r))
                else to_double (int (digits_val s)))"

definition isInt_min0 :: "string \<Rightarrow> bool" where
  "isInt_min0 s = (int_regex s \<and> nonneg (js_Number s))"

section \<open>The validation middleware\<close>

text \<open>
  express-validator runs its standard validators and sanitizers on the text of the value,
  \<^verbatim>\<open>toString(value)\<close>: the empty text for a missing or null field, \<^verbatim>\<open>String(value)\<close> for
  a boolean or a number, the string itself otherwise.
\<close>

fun toString :: "jsval option \<Rightarrow> string" where
  "toString None = []"
| "toString (Some JNull) = []"
| "toString (Some (JBool b)) = (if b then ''true'' else ''false'')"
| "toString (Some (JNum n)) = js_String (to_double n)"
| "toString (Some (JStr s)) = s"

text \<open>One entry of \<^verbatim>\<open>errors.array()\<close>: the field and the message.\<close>

datatype verr = VErr string string

text \<open>
  \<^verbatim>\<open>body('name').notEmpty().withMessage('Name is required').trim().escape()\<close>:
  the check looks at the text as submitted; the sanitizers then replace the field by the
  trimmed and escaped text.
\<close>

definition check_name :: "body \<Rightarrow> verr list" where
  "check_name b =
     (if toString (field b ''name'') = [] then [VErr ''name'' ''Name is required''] else [])"

definition sanitize_name :: "body \<Rightarrow> body" where
  "sanitize_name b = set_field ''name'' (JStr (escape (trim (toString (field b ''name''))))) b"

text \<open>
  \<^verbatim>\<open>body('quantity').isInt({ min: 0 }).withMessage(...)\<close>: a check only, the field keeps
  the value that was submitted.
\<close>

definition check_quantity :: "body \<Rightarrow> verr list" where
  "check_quantity b =
     (if isInt_min0 (toString (field b ''quantity'')) then []
      else [VErr ''quantity'' ''Quantity must be a non-negative integer''])"

text \<open>
  \<^verbatim>\<open>body(k).optional().isString().trim().escape()\<close>: a field that is undefined is skipped;
  \<^verbatim>\<open>isString\<close> tests \<^verbatim>\<open>typeof value === 'string'\<close> on the value itself.
\<close>

definition check_optional_string :: "string \<Rightarrow> body \<Rightarrow> verr list" where
  "check_optional_string k b =
     (case field b k of
        None \<Rightarrow> []
      | Some (JStr s) \<Rightarrow> []
      | Some _ \<Rightarrow> [VErr k ''Invalid value''])"

definition sanitize_optional_string :: "string \<Rightarrow> body \<Rightarrow> body" where
  "sanitize_optional_string k b =
     (case field b k of
        None \<Rightarrow> b
      | Some v \<Rightarrow> set_field k (JStr (escape (trim (toString (Some v))))) b)"

text \<open>
  \<^verbatim>\<open>validateItem\<close>: the four chains, then the function that answers 400 when
  \<^verbatim>\<open>validationResult(req)\<close> is not empty and calls \<^verbatim>\<open>next()\<close> otherwise. \<open>Inl\<close> carries the
  errors of the 400 answer, \<open>Inr\<close> the sanitized body that the route handler sees.
\<close>

definition validationResult :: "body \<Rightarrow> verr list" where
  "validationResult b =
     check_name b @ check_quantity b
       @ check_optional_string ''location'' b @ check_optional_string ''description'' b"

definition sanitized :: "body \<Rightarrow> body" where
  "sanitized b =
     sanitize_optional_string ''description''
       (sanitize_optional_string ''location'' (sanitize_name b))"

definition validateItem :: "body \<Rightarrow> verr list + body" where
  "validateItem b =
     (let errors = validationResult b
      in if errors \<noteq> [] then Inl errors else Inr (sanitized b))"

section \<open>The Item model\<close>

text \<open>
  The schema of \<^verbatim>\<open>models/Item\<close>:
  \<^verbatim>\<open>name: { type: String, required: true, maxLength: 100 }\<close>,
  \<^verbatim>\<open>quantity: { type: Number, required: true, min: 0 }\<close>,
  \<^verbatim>\<open>location: { type: String }\<close>, \<^verbatim>\<open>description: { type: String }\<close>,
  with the options \<^verbatim>\<open>timestamps: true\<close> and \<^verbatim>\<open>strict: true\<close>.
\<close>

datatype schema_type = String | Number

record path_options =
  ptype :: schema_type
  required :: bool
  maxLength :: "nat option"
  min_value :: "int option"

definition itemSchema :: "(string \<times> path_options) list" where
  "itemSchema =
     [(''name'', \<lparr>ptype = String, required = True, maxLength = Some 100, min_value = None\<rparr>),
      (''quantity'', \<lparr>ptype = Number, required = True, maxLength = None, min_value = Some 0\<rparr>),
      (''location'', \<lparr>ptype = String, required = False, maxLength = None, min_value = None\<rparr>),
      (''description'', \<lparr>ptype = String, required = False, maxLength = None, min_value = None\<rparr>)]"

text \<open>
  A stored document: the id (\<^verbatim>\<open>_id\<close>), the values of the declared paths, the two
  timestamps that \<^verbatim>\<open>timestamps: true\<close> maintains, and the version key (\<^verbatim>\<open>__v\<close>) that
  Mongoose adds to every document. These four are the paths that Mongoose itself owns.
\<close>

datatype bson = BStr string | BNum number

type_synonym doc_fields = "(string \<times> bson) list"

record item =
  oid :: nat
  doc :: doc_fields
  createdAt :: nat
  updatedAt :: nat
  version :: int

definition mongoose_paths :: "string list" where
  "mongoose_paths = [''_id'', ''createdAt'', ''updatedAt'', ''__v'']"


type_synonym store = "item list"

definition get :: "item \<Rightarrow> string \<Rightarrow> bson option" where
  "get it k = map_of (doc it) k"

fun set_path :: "string \<Rightarrow> bson \<Rightarrow> doc_fields \<Rightarrow> doc_fields" where
  "set_path k v [] = [(k, v)]"
| "set_path k v ((k', v') # d) =
     (if k' = k then (k, v) # d else (k', v') # set_path k v d)"

datatype db_error =
    ValidationError string
  | CastError string
  | DuplicateKey
  | StorageError

text \<open>
  The repository's web client sends the whole item back on an update, Mongoose's own paths
  included. What Mongoose and MongoDB make of these four keys in an update object, and of a
  key that begins with \<^verbatim>\<open>$\<close>, is not decided by this repository (a value may fail to cast,
  a different \<^verbatim>\<open>_id\<close> is refused, the version key and the timestamps may or may not be
  taken over, an operator without an object is refused), so it is not fixed here: the
  environment of the request says whether such an update is refused, or which version and
  timestamps the document carries afterwards. The id itself never changes.
\<close>

datatype own_effect = Refuse db_error | Store int nat nat

text \<open>
  What a request meets outside the store: the clock, the ObjectId that Mongoose mints for a
  new document, whether the database can be reached, and the effect of an update object
  that holds one of Mongoose's own paths or an operator.
\<close>

record env =
  clock :: nat
  new_oid :: nat
  db_up :: bool
  own_paths :: own_effect

text \<open>
  Casting a submitted value to the type of its path: a string stays, a number is the
  double read from the body, a text in integer format is cast by \<^verbatim>\<open>Number(str)\<close>. Behind
  \<^verbatim>\<open>validateItem\<close> a String path holds a string and the quantity holds a number or a text
  in integer format, so no other value reaches a cast through the router; on those the
  model reports a cast error.
\<close>

fun cast :: "schema_type \<Rightarrow> jsval \<Rightarrow> bson option" where
  "cast String (JStr s) = Some (BStr s)"
| "cast Number (JNum n) = Some (BNum (to_double n))"
| "cast Number (JStr s) = (if int_regex s then Some (BNum (js_Number s)) else None)"
| "cast _ _ = None"

text \<open>
  Casting an object against the schema, path by path. With \<^verbatim>\<open>strict: true\<close> a key that is
  not a schema path is dropped; a path that the object does not mention is left alone.
\<close>

fun cast_paths :: "(string \<times> path_options) list \<Rightarrow> body \<Rightarrow> db_error + doc_fields" where
  "cast_paths [] b = Inr []"
| "cast_paths ((k, opts) # sch) b =
     (case field b k of
        None \<Rightarrow> cast_paths sch b
      | Some v \<Rightarrow>
          (case cast (ptype opts) v of
             None \<Rightarrow> Inl (CastError k)
           | Some x \<Rightarrow>
               (case cast_paths sch b of
                  Inl e \<Rightarrow> Inl e
                | Inr d \<Rightarrow> Inr ((k, x) # d))))"

text \<open>
  The validators that \<^verbatim>\<open>save()\<close> runs: \<^verbatim>\<open>required\<close> (for a String path the empty string
  counts as missing), \<^verbatim>\<open>maxLength\<close> and \<^verbatim>\<open>min\<close>.
\<close>

definition validate_path :: "string \<Rightarrow> path_options \<Rightarrow> bson option \<Rightarrow> db_error option" where
  "validate_path k opts x =
     (case x of
        None \<Rightarrow> if required opts then Some (ValidationError k) else None
      | Some (BStr s) \<Rightarrow>
          if required opts \<and> s = [] then Some (ValidationError k)
          else (case maxLength opts of
                  Some n \<Rightarrow> if n < length s then Some (ValidationError k) else None
                | None \<Rightarrow> None)
      | Some (BNum n) \<Rightarrow>
          (case min_value opts of
             Some m \<Rightarrow> if below n m then Some (ValidationError k) else None
           | None \<Rightarrow> None))"

fun validate_paths :: "(string \<times> path_options) list \<Rightarrow> doc_fields \<Rightarrow> db_error option" where
  "validate_paths [] d = None"
| "validate_paths ((k, opts) # sch) d =
     (case validate_path k opts (map_of d k) of
        Some e \<Rightarrow> Some e
      | None \<Rightarrow> validate_paths sch d)"

definition findById :: "nat \<Rightarrow> store \<Rightarrow> item option" where
  "findById i st = find (\<lambda>it. oid it = i) st"

text \<open>
  \<^verbatim>\<open>new Item(obj).save()\<close>: cast, validate, insert with a fresh id, both timestamps set to
  the current time and the version key at 0. The unique index on the id refuses a second
  document with the same id.
\<close>

definition save :: "env \<Rightarrow> body \<Rightarrow> store \<Rightarrow> db_error + (item \<times> store)" where
  "save e obj st =
     (case cast_paths itemSchema obj of
        Inl err \<Rightarrow> Inl err
      | Inr d \<Rightarrow>
          (case validate_paths itemSchema d of
             Some err \<Rightarrow> Inl err
           | None \<Rightarrow>
               if \<not> db_up e then Inl StorageError
               else if findById (new_oid e) st \<noteq> None then Inl DuplicateKey
               else let it = \<lparr>oid = new_oid e, doc = d,
                               createdAt = clock e, updatedAt = clock e, version = 0\<rparr>
                    in Inr (it, st @ [it])))"

text \<open>
  The \<^verbatim>\<open>:id\<close> segment of the URL: the text of an ObjectId, or a text that does not cast to
  one.
\<close>

datatype idparam = Oid nat | BadId

fun replace :: "item \<Rightarrow> store \<Rightarrow> store" where
  "replace it' [] = []"
| "replace it' (it # st) = (if oid it = oid it' then it' # st else it # replace it' st)"

text \<open>
  \<^verbatim>\<open>Item.findByIdAndUpdate(id, update, { new: true })\<close>: the update is cast against the
  schema and applied as a \<^verbatim>\<open>$set\<close> of the declared paths it mentions. The option
  \<^verbatim>\<open>runValidators\<close> is not given, so the schema validators do not run. The handler passes
  \<^verbatim>\<open>req.body\<close> whole, so the update may also hold one of Mongoose's own paths (the web
  client sends back \<^verbatim>\<open>_id\<close>, \<^verbatim>\<open>__v\<close> and the timestamps of the item it edits) or a key
  that begins with \<^verbatim>\<open>$\<close>, which Mongoose reads as an update operator. When the update holds
  neither, \<^verbatim>\<open>updatedAt\<close> is refreshed and the version key and \<^verbatim>\<open>createdAt\<close> stay; when it
  holds one, the environment decides: the call is refused, or the document's own paths get
  the values the environment names. The result is the updated document, or nothing when no
  document has the id.
\<close>

definition is_operator :: "string \<Rightarrow> bool" where
  "is_operator k = (case k of [] \<Rightarrow> False | c # r \<Rightarrow> c = CHR ''$'')"

definition mentions_own :: "body \<Rightarrow> bool" where
  "mentions_own upd = list_ex (\<lambda>k. k \<in> set mongoose_paths \<or> is_operator k) (map fst upd)"

definition refused :: "env \<Rightarrow> body \<Rightarrow> db_error option" where
  "refused e upd =
     (if mentions_own upd
      then (case own_paths e of Refuse err \<Rightarrow> Some err | Store v c u \<Rightarrow> None)
      else None)"

definition apply_update :: "env \<Rightarrow> body \<Rightarrow> doc_fields \<Rightarrow> item \<Rightarrow> item" where
  "apply_update e upd sets it =
     (let it' = it\<lparr>doc := fold (\<lambda>(k, v). set_path k v) sets (doc it), updatedAt := clock e\<rparr>
      in if mentions_own upd
         then (case own_paths e of
                 Store v c u \<Rightarrow> it'\<lparr>createdAt := c, updatedAt := u, version := v\<rparr>
               | Refuse err \<Rightarrow> it')
         else it')"

definition findByIdAndUpdate ::
    "env \<Rightarrow> idparam \<Rightarrow> body \<Rightarrow> store \<Rightarrow> db_error + (item option \<times> store)" where
  "findByIdAndUpdate e p upd st =
     (case p of
        BadId \<Rightarrow> Inl (CastError ''_id'')
      | Oid i \<Rightarrow>
          (case cast_paths itemSchema upd of
             Inl err \<Rightarrow> Inl err
           | Inr sets \<Rightarrow>
               (case refused e upd of
                  Some err \<Rightarrow> Inl err
                | None \<Rightarrow>
                    if \<not> db_up e then Inl StorageError
                    else (case findById i st of
                            None \<Rightarrow> Inr (None, st)
                          | Some it \<Rightarrow>
                              let it' = apply_update e upd sets it
                              in Inr (Some it', replace it' st)))))"

definition findByIdAndDelete ::
    "env \<Rightarrow> idparam \<Rightarrow> store \<Rightarrow> db_error + (item option \<times> store)" where
  "findByIdAndDelete e p st =
     (case p of
        BadId \<Rightarrow> Inl (CastError ''_id'')
      | Oid i \<Rightarrow>
          if \<not> db_up e then Inl StorageError
          else (case findById i st of
                  None \<Rightarrow> Inr (None, st)
                | Some it \<Rightarrow> Inr (Some it, filter (\<lambda>x. oid x \<noteq> i) st)))"

text \<open>
  \<^verbatim>\<open>Item.find().sort({ createdAt: -1 })\<close>: newest first. Documents created at the same
  instant come in an order the database does not fix; the model keeps the later insertion
  first.
\<close>

definition find_sorted :: "env \<Rightarrow> store \<Rightarrow> db_error + item list" where
  "find_sorted e st =
     (if \<not> db_up e then Inl StorageError else Inr (rev (sort_key createdAt st)))"

section \<open>The router\<close>

datatype payload =
    Item item
  | Items "item list"
  | Message string
  | Failure db_error
  | ValidationFailed "verr list"
  | NoRoute

record response =
  status :: nat
  payload :: payload

text \<open>\<^verbatim>\<open>router.get('/')\<close>\<close>

definition get_items :: "env \<Rightarrow> store \<Rightarrow> response \<times> store" where
  "get_items e st =
     (case find_sorted e st of
        Inr items \<Rightarrow> (\<lparr>status = 200, payload = Items items\<rparr>, st)
      | Inl err \<Rightarrow> (\<lparr>status = 500, payload = Failure err\<rparr>, st))"

text \<open>
  The handler of \<^verbatim>\<open>router.post('/')\<close>, behind \<^verbatim>\<open>validateItem\<close>:
  \<^verbatim>\<open>const { name, quantity, description } = req.body\<close>, then
  \<^verbatim>\<open>new Item({ name, quantity, description }).save()\<close>.
\<close>

definition pick :: "string list \<Rightarrow> body \<Rightarrow> body" where
  "pick ks b = concat (map (\<lambda>k. case field b k of None \<Rightarrow> [] | Some v \<Rightarrow> [(k, v)]) ks)"

definition post_item :: "env \<Rightarrow> body \<Rightarrow> store \<Rightarrow> response \<times> store" where
  "post_item e b st =
     (case save e (pick [''name'', ''quantity'', ''description''] b) st of
        Inr (newItem, st') \<Rightarrow> (\<lparr>status = 201, payload = Item newItem\<rparr>, st')
      | Inl err \<Rightarrow> (\<lparr>status = 400, payload = Failure err\<rparr>, st))"

text \<open>The handler of \<^verbatim>\<open>router.put('/:id')\<close>, behind \<^verbatim>\<open>validateItem\<close>.\<close>

definition put_item :: "env \<Rightarrow> idparam \<Rightarrow> body \<Rightarrow> store \<Rightarrow> response \<times> store" where
  "put_item e p b st =
     (case findByIdAndUpdate e p b st of
        Inr (None, st') \<Rightarrow> (\<lparr>status = 404, payload = Message ''Item not found''\<rparr>, st)
      | Inr (Some updated, st') \<Rightarrow> (\<lparr>status = 200, payload = Item updated\<rparr>, st')
      | Inl err \<Rightarrow> (\<lparr>status = 400, payload = Failure err\<rparr>, st))"

text \<open>\<^verbatim>\<open>router.delete('/:id')\<close>\<close>

definition delete_item :: "env \<Rightarrow> idparam \<Rightarrow> store \<Rightarrow> response \<times> store" where
  "delete_item e p st =
     (case findByIdAndDelete e p st of
        Inr (None, st') \<Rightarrow> (\<lparr>status = 404, payload = Message ''Item not found''\<rparr>, st)
      | Inr (Some deleted, st') \<Rightarrow> (\<lparr>status = 200, payload = Message ''Item deleted''\<rparr>, st')
      | Inl err \<Rightarrow> (\<lparr>status = 500, payload = Failure err\<rparr>, st))"

text \<open>
  A route with \<^verbatim>\<open>validateItem\<close> in front: the middleware answers 400 itself when the
  validation result is not empty, and hands the sanitized body on otherwise.
\<close>

definition validated ::
    "(body \<Rightarrow> store \<Rightarrow> response \<times> store) \<Rightarrow> body \<Rightarrow> store \<Rightarrow> response \<times> store" where
  "validated handler b st =
     (case validateItem b of
        Inl errors \<Rightarrow> (\<lparr>status = 400, payload = ValidationFailed errors\<rparr>, st)
      | Inr b' \<Rightarrow> handler b' st)"

text \<open>
  A request as the router mounted at \<^verbatim>\<open>/api/items\<close> sees it: the method, the rest of the
  path (\<^verbatim>\<open>/\<close>, one segment, or anything longer) and the parsed body. The router has four
  routes; a request that matches none falls through to the default handler of Express,
  which answers 404.
\<close>

datatype http_method = GET | POST | PUT | DELETE

datatype path = Root | Segment idparam | Longer

record request =
  rmethod :: http_method
  rpath :: path
  rbody :: body

definition router :: "env \<Rightarrow> request \<Rightarrow> store \<Rightarrow> response \<times> store" where
  "router e rq st =
     (case (rmethod rq, rpath rq) of
        (GET, Root) \<Rightarrow> get_items e st
      | (POST, Root) \<Rightarrow> validated (post_item e) (rbody rq) st
      | (PUT, Segment p) \<Rightarrow> validated (put_item e p) (rbody rq) st
      | (DELETE, Segment p) \<Rightarrow> delete_item e p st
      | _ \<Rightarrow> (\<lparr>status = 404, payload = NoRoute\<rparr>, st))"

text \<open>The store after a sequence of requests, each with the environment it met.\<close>

fun run :: "(env \<times> request) list \<Rightarrow> store \<Rightarrow> store" where
  "run [] st = st"
| "run ((e, rq) # rqs) st = run rqs (snd (router e rq st))"

section \<open>Predicates of the statements\<close>

text \<open>A field that the optional chains accept: missing, or a string.\<close>

definition optional_string :: "jsval option \<Rightarrow> bool" where
  "optional_string x = (case x of None \<Rightarrow> True | Some (JStr s) \<Rightarrow> True | Some _ \<Rightarrow> False)"

text \<open>
  The store invariant on quantities as the specification words it: a non-negative integer.
  \<open>is_integer\<close> is \<^verbatim>\<open>Number.isInteger\<close>. The invariant that the code keeps is the weaker
  \<open>quantities_nonneg\<close>: a number, and not a negative one.
\<close>

fun is_integer :: "number \<Rightarrow> bool" where
  "is_integer (Num x) = True"
| "is_integer Infinity = False"
| "is_integer NegInfinity = False"

definition quantities_valid :: "store \<Rightarrow> bool" where
  "quantities_valid st =
     list_all (\<lambda>it. case get it ''quantity'' of Some (BNum q) \<Rightarrow> is_integer q \<and> nonneg q
                                                | _ \<Rightarrow> False) st"

definition quantities_nonneg :: "store \<Rightarrow> bool" where
  "quantities_nonneg st =
     list_all (\<lambda>it. case get it ''quantity'' of Some (BNum q) \<Rightarrow> nonneg q | _ \<Rightarrow> False) st"







section \<open>Bodies, text and numbers\<close>

lemma field_set_field: "field (set_field k v b) k' = (if k' = k then Some v else field b k')"
  by (induction b) (auto simp: field_def)

lemma map_of_set_path: "map_of (set_path k v d) k' = (if k' = k then Some v else map_of d k')"
  by (induction d) auto


lemma field_sanitize_name:
  "field (sanitize_name b) k =
     (if k = ''name'' then Some (JStr (escape (trim (toString (field b ''name''))))) else field b k)"
  by (simp add: sanitize_name_def field_set_field)

lemma field_sanitize_optional_string:
  "field (sanitize_optional_string f b) k =
     (if k = f then map_option (\<lambda>v. JStr (escape (trim (toString (Some v))))) (field b f)
      else field b k)"
  by (auto simp: sanitize_optional_string_def field_set_field split: option.splits)

lemma field_sanitized:
  "field (sanitized b) k =
     (if k = ''name'' then Some (JStr (escape (trim (toString (field b ''name'')))))
      else if k = ''location'' \<or> k = ''description''
        then map_option (\<lambda>v. JStr (escape (trim (toString (Some v))))) (field b k)
      else field b k)"
  by (simp add: sanitized_def field_sanitize_optional_string field_sanitize_name)

lemma check_optional_string_empty:
  "check_optional_string k b = [] \<longleftrightarrow> optional_string (field b k)"
  by (simp add: check_optional_string_def optional_string_def split: option.splits jsval.splits)

lemma validationResult_empty:
  "validationResult b = [] \<longleftrightarrow>
     toString (field b ''name'') \<noteq> [] \<and> isInt_min0 (toString (field b ''quantity''))
     \<and> optional_string (field b ''location'') \<and> optional_string (field b ''description'')"
  by (simp add: validationResult_def check_name_def check_quantity_def check_optional_string_empty)

lemma validateItem_Inr:
  "validateItem b = Inr b' \<longleftrightarrow> validationResult b = [] \<and> b' = sanitized b"
  by (auto simp: validateItem_def Let_def)

lemma digit_cases: "d < 10 \<Longrightarrow> d = 0 \<or> d = 1 \<or> d = 2 \<or> d = 3 \<or> d = 4 \<or> d = 5 \<or> d = 6 \<or> d = 7 \<or> d = 8 \<or> d = (9::nat)"
  by arith

lemma digit_val_digit_char: "d < 10 \<Longrightarrow> digit_val (digit_char d) = d"
  using digit_cases [of d] by (auto simp: digit_val_def digit_char_def)

lemma is_digit_digit_char: "d < 10 \<Longrightarrow> is_digit (digit_char d)"
  using digit_cases [of d] by (auto simp: is_digit_def digit_char_def)

lemma digits_val_snoc: "digits_val (ds @ [c]) = 10 * digits_val ds + digit_val c"
  by (simp add: digits_val_def)

lemma digits_val_digits: "digits_val (digits n) = n"
proof (induction n rule: digits.induct)
  case (1 n)
  show ?case
  proof (cases "n < 10")
    case True
    then show ?thesis
      by (subst digits.simps) (simp add: digits_val_def digit_val_digit_char)
  next
    case False
    with 1 show ?thesis
      by (subst digits.simps) (simp add: digits_val_snoc digit_val_digit_char)
  qed
qed

lemma digits_not_Nil: "digits n \<noteq> []"
  by (subst digits.simps) simp

lemma all_digits: "list_all is_digit (digits n)"
proof (induction n rule: digits.induct)
  case (1 n)
  then show ?case
    by (subst digits.simps) (simp add: is_digit_digit_char)
qed

lemma unsigned_int_digits: "unsigned_int (digits n)"
  by (simp add: unsigned_int_def digits_not_Nil all_digits)

lemma hd_digits_is_digit: "is_digit (hd (digits n))"
  using all_digits [of n] digits_not_Nil [of n] by (cases "digits n") auto

lemma not_unsigned_int_exp: "\<not> unsigned_int (xs @ ''e+'' @ ys)"
  by (simp add: unsigned_int_def is_digit_def)

lemma not_int_regex_exponent_form: "\<not> int_regex (exponent_form n)"
proof -
  obtain c xs ys where e: "exponent_form n = c # xs @ ''e+'' @ ys"
    by (simp add: exponent_form_def Let_def)
  have "\<not> unsigned_int (xs @ ''e+'' @ ys)" by (rule not_unsigned_int_exp)
  moreover have "\<not> unsigned_int ((c # xs) @ ''e+'' @ ys)" by (rule not_unsigned_int_exp)
  ultimately show ?thesis by (simp add: e int_regex_def)
qed

lemma not_unsigned_int_exponent_form: "\<not> unsigned_int (exponent_form n)"
proof -
  obtain c xs ys where e: "exponent_form n = c # xs @ ''e+'' @ ys"
    by (simp add: exponent_form_def Let_def)
  have "\<not> unsigned_int ((c # xs) @ ''e+'' @ ys)" by (rule not_unsigned_int_exp)
  then show ?thesis by (simp add: e)
qed

lemma is_digit_not_sign: "is_digit c \<Longrightarrow> c \<noteq> CHR ''-'' \<and> c \<noteq> CHR ''+''"
  by (auto simp: is_digit_def)

lemma int_regex_digits: "int_regex (digits n)"
proof (cases "digits n")
  case Nil
  then show ?thesis by (simp add: digits_not_Nil)
next
  case (Cons c r)
  then have "is_digit c" using hd_digits_is_digit [of n] by simp
  then show ?thesis
    using unsigned_int_digits [of n] Cons is_digit_not_sign [of c] by (simp add: int_regex_def)
qed

lemma js_Number_digits: "js_Number (digits n) = to_double (int n)"
proof (cases "digits n")
  case Nil
  then show ?thesis by (simp add: digits_not_Nil)
next
  case (Cons c r)
  then have "is_digit c" using hd_digits_is_digit [of n] by simp
  then show ?thesis
    using digits_val_digits [of n] Cons is_digit_not_sign [of c] by (simp add: js_Number_def)
qed

lemma js_Number_minus_digits: "js_Number (CHR ''-'' # digits n) = negate (to_double (int n))"
  by (simp add: js_Number_def digits_val_digits)

subsection \<open>Doubles\<close>

lemma bit_length_bound: "0 < a \<Longrightarrow> 2 ^ (bit_length a - 1) \<le> a"
proof (induction a rule: bit_length.induct)
  case (1 n)
  show ?case
  proof (cases "n div 2 = 0")
    case True
    with "1.prems" show ?thesis
      by (subst bit_length.simps, subst bit_length.simps) simp
  next
    case False
    with "1.prems" "1.IH" have ih: "2 ^ (bit_length (n div 2) - 1) \<le> n div 2" by simp
    from False have "0 < bit_length (n div 2)"
      by (subst bit_length.simps) simp
    then have "(2::nat) ^ bit_length (n div 2) = 2 * 2 ^ (bit_length (n div 2) - 1)"
      by (cases "bit_length (n div 2)") simp_all
    also from ih have "\<dots> \<le> 2 * (n div 2)" by simp
    also have "\<dots> \<le> n" by simp
    finally have "2 ^ bit_length (n div 2) \<le> n" .
    with "1.prems" show ?thesis
      by (subst bit_length.simps) simp
  qed
qed

lemma round_to_double_small: "a < 2 ^ 53 \<Longrightarrow> round_to_double a = Some a"
  by (simp add: round_to_double_def)

lemma round_to_double_pos:
  assumes "1 \<le> a" and "round_to_double a = Some v"
  shows "1 \<le> v"
proof (cases "a < 2 ^ 53")
  case True
  with assms show ?thesis by (simp add: round_to_double_def)
next
  case False
  define e where "e = bit_length a - 53"
  define m where "m = a div 2 ^ e"
  define k where "k = (if 2 ^ (e - 1) < a mod 2 ^ e \<or> (a mod 2 ^ e = 2 ^ (e - 1) \<and> odd m)
                        then m + 1 else m)"
  from False have "round_to_double a = (if 2 ^ 1024 \<le> k * 2 ^ e then None else Some (k * 2 ^ e))"
    unfolding round_to_double_def Let_def e_def m_def k_def by (simp only: if_False)
  with assms(2) have v: "v = k * 2 ^ e" by (simp split: if_splits)
  have "(2::nat) ^ e \<le> 2 ^ (bit_length a - 1)"
    unfolding e_def by (rule power_increasing) simp_all
  also from assms(1) have "\<dots> \<le> a" by (intro bit_length_bound) simp
  finally have "0 < m"
    unfolding m_def by (simp add: div_greater_zero_iff)
  then have "0 < k" unfolding k_def by simp
  then have "0 < k * 2 ^ e" by simp
  with v show ?thesis by simp
qed

lemma to_double_small: "\<bar>n\<bar> < 2 ^ 53 \<Longrightarrow> to_double n = Num n"
proof -
  assume "\<bar>n\<bar> < 2 ^ 53"
  then have "nat \<bar>n\<bar> < 2 ^ 53" by (simp add: nat_less_iff)
  then show ?thesis by (simp add: to_double_def round_to_double_small)
qed

lemma to_double_pos:
  assumes "1 \<le> n"
  shows "(\<exists>x. to_double n = Num x \<and> 1 \<le> x) \<or> to_double n = Infinity"
proof (cases "round_to_double (nat \<bar>n\<bar>)")
  case None
  with assms show ?thesis by (simp add: to_double_def)
next
  case (Some v)
  from assms have "1 \<le> nat \<bar>n\<bar>" by simp
  from round_to_double_pos [OF this Some] Some assms show ?thesis
    by (simp add: to_double_def)
qed

lemma to_double_neg:
  assumes "n < 0"
  shows "(\<exists>x. to_double n = Num x \<and> x < 0) \<or> to_double n = NegInfinity"
proof (cases "round_to_double (nat \<bar>n\<bar>)")
  case None
  with assms show ?thesis by (simp add: to_double_def)
next
  case (Some v)
  from assms have "1 \<le> nat \<bar>n\<bar>" by simp
  from round_to_double_pos [OF this Some] Some assms show ?thesis
    by (simp add: to_double_def)
qed

lemma to_double_nonneg: "0 \<le> n \<Longrightarrow> nonneg (to_double n)"
  by (cases "round_to_double (nat \<bar>n\<bar>)") (simp_all add: to_double_def)

lemma negate_to_double_pos: "1 \<le> n \<Longrightarrow> \<not> nonneg (negate (to_double n))"
  using to_double_pos [of n] by auto

lemma shortest_step:
  "shortest x j = x div 10 ^ j * 10 ^ j \<and> 0 < x div 10 ^ j * 10 ^ j
   \<or> shortest x j = x div 10 ^ j * 10 ^ j + 10 ^ j
   \<or> shortest x j = (case j of 0 \<Rightarrow> x | Suc i \<Rightarrow> shortest x i)"
  by (simp add: shortest.simps [of x j] Let_def)

lemma shortest_pos: "1 \<le> x \<Longrightarrow> 1 \<le> shortest x j"
proof (induction j)
  case 0
  with shortest_step [of x 0] show ?case by auto
next
  case (Suc j)
  from shortest_step [of x "Suc j"]
  consider "shortest x (Suc j) = x div 10 ^ Suc j * 10 ^ Suc j" "0 < x div 10 ^ Suc j * 10 ^ Suc j"
    | "shortest x (Suc j) = x div 10 ^ Suc j * 10 ^ Suc j + 10 ^ Suc j"
    | "shortest x (Suc j) = shortest x j"
    by auto
  then show ?case
  proof cases
    case 1
    then show ?thesis by simp
  next
    case 2
    have "(0::nat) < 10 ^ Suc j" by simp
    then have "1 \<le> x div 10 ^ Suc j * 10 ^ Suc j + 10 ^ Suc j" by linarith
    with 2 show ?thesis by simp
  next
    case 3
    with Suc show ?thesis by simp
  qed
qed

lemma shortest_decimal_pos: "1 \<le> x \<Longrightarrow> 1 \<le> shortest_decimal x"
  using shortest_pos [of x] by (simp add: shortest_decimal_def)

lemma shortest_decimal_small: "x < 2 ^ 53 \<Longrightarrow> shortest_decimal x = x"
  by (simp add: shortest_decimal_def)

subsection \<open>The integer check\<close>

lemma isInt_min0_js_String:
  assumes "isInt_min0 (js_String d)"
  shows "\<exists>x. d = Num x \<and> 0 \<le> x"
proof (cases d)
  case (Num x)
  show ?thesis
  proof (cases "x < 0")
    case False
    with Num show ?thesis by simp
  next
    case True
    define v where "v = shortest_decimal (nat \<bar>x\<bar>)"
    from True have "1 \<le> nat \<bar>x\<bar>" by simp
    then have v: "1 \<le> v" unfolding v_def by (rule shortest_decimal_pos)
    show ?thesis
    proof (cases "v < 10 ^ 21")
      case small: True
      with True Num have "js_String d = CHR ''-'' # digits v"
        by (simp add: Let_def v_def)
      with assms have "nonneg (negate (to_double (int v)))"
        by (simp add: isInt_min0_def js_Number_minus_digits)
      with v negate_to_double_pos [of "int v"] show ?thesis by simp
    next
      case False
      with True Num have "js_String d = CHR ''-'' # exponent_form v"
        by (simp add: Let_def v_def)
      with assms show ?thesis
        by (simp add: isInt_min0_def int_regex_def not_unsigned_int_exponent_form)
    qed
  qed
next
  case Infinity
  with assms show ?thesis
    by (simp add: isInt_min0_def int_regex_def unsigned_int_def is_digit_def)
next
  case NegInfinity
  with assms show ?thesis
    by (simp add: isInt_min0_def int_regex_def unsigned_int_def is_digit_def)
qed

lemma isInt_min0_safe:
  assumes "0 \<le> n" and "n < 2 ^ 53"
  shows "isInt_min0 (js_String (to_double n))"
proof -
  from assms have d: "to_double n = Num n" by (intro to_double_small) simp
  from assms have "nat n < 2 ^ 53" by (simp add: nat_less_iff)
  then have v: "shortest_decimal (nat n) = nat n"
    by (rule shortest_decimal_small)
  from assms have "nat n < 10 ^ 21" by (simp add: nat_less_iff)
  with assms(1) have "js_String (Num n) = digits (nat n)"
    by (simp add: v Let_def)
  with assms(1) show ?thesis
    by (simp add: d isInt_min0_def int_regex_digits js_Number_digits to_double_nonneg)
qed

lemma isInt_min0_negative: "n < 0 \<Longrightarrow> \<not> isInt_min0 (js_String (to_double n))"
  using to_double_neg [of n] isInt_min0_js_String [of "to_double n"] by auto

lemma isInt_min0_cast:
  assumes "isInt_min0 (toString (Some v))"
  shows "\<exists>q. cast Number v = Some (BNum q) \<and> nonneg q"
proof (cases v)
  case JNull
  with assms show ?thesis by (simp add: isInt_min0_def int_regex_def)
next
  case (JBool x)
  with assms show ?thesis
    by (simp add: isInt_min0_def int_regex_def unsigned_int_def is_digit_def split: if_splits)
next
  case (JNum n)
  with assms isInt_min0_js_String [of "to_double n"] show ?thesis by auto
next
  case (JStr s)
  with assms show ?thesis by (simp add: isInt_min0_def)
qed

lemma field_pick: "field (pick ks b) k = (if k \<in> set ks then field b k else None)"
proof (induction ks)
  case Nil
  show ?case by (simp add: pick_def field_def)
next
  case (Cons a ks)
  have "pick (a # ks) b = (case field b a of None \<Rightarrow> [] | Some v \<Rightarrow> [(a, v)]) @ pick ks b"
    by (simp add: pick_def)
  with Cons show ?case
    by (cases "field b a") (simp_all add: field_def)
qed

subsection \<open>Numbers beyond the range of a double\<close>

lemma bit_length_upper: "a < 2 ^ bit_length a"
proof (induction a rule: bit_length.induct)
  case (1 n)
  show ?case
  proof (cases "n = 0")
    case True
    then show ?thesis by simp
  next
    case False
    with "1.IH" have "n div 2 < 2 ^ bit_length (n div 2)" by simp
    then have "n < 2 * 2 ^ bit_length (n div 2)" by linarith
    with False show ?thesis by (subst bit_length.simps) simp
  qed
qed

lemma round_to_double_overflow:
  assumes "2 ^ 1024 \<le> a"
  shows "round_to_double a = None"
proof -
  define e where "e = bit_length a - 53"
  define m where "m = a div 2 ^ e"
  define k where "k = (if 2 ^ (e - 1) < a mod 2 ^ e \<or> (a mod 2 ^ e = 2 ^ (e - 1) \<and> odd m)
                        then m + 1 else m)"
  have "(2::nat) ^ 53 \<le> 2 ^ 1024" by (rule power_increasing) simp_all
  with assms have big: "\<not> a < 2 ^ 53" by linarith
  then have r: "round_to_double a = (if 2 ^ 1024 \<le> k * 2 ^ e then None else Some (k * 2 ^ e))"
    unfolding round_to_double_def Let_def e_def m_def k_def by (simp only: if_False)
  from assms bit_length_upper [of a] have "(2::nat) ^ 1024 < 2 ^ bit_length a" by linarith
  then have len: "1024 < bit_length a" by (simp only: power_strict_increasing_iff [of 2])
  from assms have "0 < a" by (cases "a = 0") simp_all
  then have low: "2 ^ (bit_length a - 1) \<le> a" by (rule bit_length_bound)
  from len have "bit_length a - 1 = 52 + e" by (simp add: e_def)
  then have split: "(2::nat) ^ (bit_length a - 1) = 2 ^ 52 * 2 ^ e" by (simp add: power_add)
  with low have "2 ^ 52 * 2 ^ e \<le> a" by simp
  then have "2 ^ 52 \<le> m" by (simp add: m_def less_eq_div_iff_mult_less_eq)
  moreover have "m \<le> k" by (simp add: k_def)
  ultimately have "2 ^ 52 \<le> k" by linarith
  then have "2 ^ 52 * 2 ^ e \<le> k * 2 ^ e" by (rule mult_le_mono1)
  with split have "2 ^ (bit_length a - 1) \<le> k * 2 ^ e" by simp
  moreover from len have "(2::nat) ^ 1024 \<le> 2 ^ (bit_length a - 1)"
    by (intro power_increasing) simp_all
  ultimately have "2 ^ 1024 \<le> k * 2 ^ e" by linarith
  with r show ?thesis by (simp only: if_True)
qed

lemma to_double_overflow: "2 ^ 1024 \<le> n \<Longrightarrow> to_double n = Infinity"
proof -
  assume n: "2 ^ 1024 \<le> n"
  have "(0::int) < 2 ^ 1024" by simp
  with n have pos: "0 < n" by linarith
  with n have "2 ^ 1024 \<le> nat \<bar>n\<bar>" by (simp add: le_nat_iff)
  then have "round_to_double (nat \<bar>n\<bar>) = None" by (rule round_to_double_overflow)
  with pos show ?thesis by (simp add: to_double_def)
qed

lemma digits_val_zeros: "digits_val (ds @ replicate n CHR ''0'') = digits_val ds * 10 ^ n"
proof (induction n)
  case 0
  then show ?case by simp
next
  case (Suc n)
  have "ds @ replicate (Suc n) CHR ''0'' = (ds @ replicate n CHR ''0'') @ [CHR ''0'']"
    by (simp add: replicate_append_same)
  then have "digits_val (ds @ replicate (Suc n) CHR ''0'')
               = 10 * digits_val (ds @ replicate n CHR ''0'') + digit_val CHR ''0''"
    by (simp only: digits_val_snoc)
  with Suc show ?case by (simp add: digit_val_def)
qed

lemma unsigned_int_zeros: "unsigned_int (CHR ''2'' # replicate n CHR ''0'')"
  by (simp add: unsigned_int_def is_digit_def list_all_iff)

lemma js_Number_zeros:
  "js_Number (CHR ''2'' # replicate n CHR ''0'') = to_double (2 * 10 ^ n)"
proof -
  have "digits_val (CHR ''2'' # replicate n CHR ''0'') = 2 * 10 ^ n"
    using digits_val_zeros [of "[CHR ''2'']" n] by (simp add: digits_val_def digit_val_def)
  then show ?thesis by (simp add: js_Number_def)
qed

lemma huge_quantity:
  "int_regex (CHR ''2'' # replicate 308 CHR ''0'')"
  "js_Number (CHR ''2'' # replicate 308 CHR ''0'') = Infinity"
  "isInt_min0 (CHR ''2'' # replicate 308 CHR ''0'')"
proof -
  have "(2::int) ^ 1024 \<le> 2 * 10 ^ 308" by simp
  then have "to_double (2 * 10 ^ 308) = Infinity" by (rule to_double_overflow)
  then show inf: "js_Number (CHR ''2'' # replicate 308 CHR ''0'') = Infinity"
    by (simp add: js_Number_zeros)
  show re: "int_regex (CHR ''2'' # replicate 308 CHR ''0'')"
    using unsigned_int_zeros [of 308] by (simp add: int_regex_def)
  from re inf show "isInt_min0 (CHR ''2'' # replicate 308 CHR ''0'')"
    by (simp add: isInt_min0_def)
qed

section \<open>Casting and the store\<close>

lemma cast_paths_Cons:
  "cast_paths ((k, opts) # sch) b = Inr d \<longleftrightarrow>
     (case field b k of
        None \<Rightarrow> cast_paths sch b = Inr d
      | Some v \<Rightarrow> \<exists>x d'. cast (ptype opts) v = Some x \<and> cast_paths sch b = Inr d' \<and> d = (k, x) # d')"
  by (cases "field b k"; cases "cast_paths sch b")
     (auto split: option.splits)

lemma cast_paths_Cons_None:
  "field b k = None \<Longrightarrow> cast_paths ((k, opts) # sch) b = cast_paths sch b"
  by simp

lemma cast_paths_Cons_Some:
  "field b k = Some v \<Longrightarrow>
   cast_paths ((k, opts) # sch) b =
     (case cast (ptype opts) v of
        None \<Rightarrow> Inl (CastError k)
      | Some x \<Rightarrow> (case cast_paths sch b of Inl e \<Rightarrow> Inl e | Inr d \<Rightarrow> Inr ((k, x) # d)))"
  by simp

declare cast_paths.simps(2) [simp del]


lemma cast_paths_keys:
  "cast_paths sch b = Inr d \<Longrightarrow> fst ` set d \<subseteq> fst ` set sch"
proof (induction sch arbitrary: d)
  case Nil
  then show ?case by simp
next
  case (Cons a sch)
  obtain k opts where a: "a = (k, opts)" by (cases a)
  show ?case
  proof (cases "field b k")
    case None
    with Cons.prems have "cast_paths sch b = Inr d" by (simp add: a cast_paths_Cons)
    from Cons.IH [OF this] show ?thesis by (auto simp: a)
  next
    case (Some v)
    with Cons.prems obtain x d' where d': "cast_paths sch b = Inr d'" and d: "d = (k, x) # d'"
      by (auto simp: a cast_paths_Cons)
    from Cons.IH [OF d'] show ?thesis by (auto simp: a d)
  qed
qed

lemma map_of_None_keys: "k \<notin> fst ` set xs \<Longrightarrow> map_of xs k = None"
  by (simp add: map_of_eq_None_iff)

lemma cast_paths_map_of:
  "cast_paths sch b = Inr d \<Longrightarrow> distinct (map fst sch) \<Longrightarrow>
   map_of d k =
     (case map_of sch k of
        None \<Rightarrow> None
      | Some opts \<Rightarrow> (case field b k of None \<Rightarrow> None | Some v \<Rightarrow> cast (ptype opts) v))"
proof (induction sch arbitrary: d)
  case Nil
  then show ?case by simp
next
  case (Cons a sch)
  obtain k0 opts0 where a: "a = (k0, opts0)" by (cases a)
  from Cons.prems have dist: "distinct (map fst sch)" and fresh: "k0 \<notin> fst ` set sch"
    by (auto simp: a)
  have none: "map_of sch k0 = None" using fresh by (rule map_of_None_keys)
  show ?case
  proof (cases "field b k0")
    case None
    with Cons.prems have "cast_paths sch b = Inr d" by (simp add: a cast_paths_Cons)
    from Cons.IH [OF this dist] None none show ?thesis by (simp add: a)
  next
    case (Some v)
    with Cons.prems obtain x d' where x: "cast (ptype opts0) v = Some x"
      and d': "cast_paths sch b = Inr d'" and d: "d = (k0, x) # d'"
      by (auto simp: a cast_paths_Cons)
    from Cons.IH [OF d' dist] Some x none show ?thesis by (simp add: a d)
  qed
qed

lemma cast_paths_total:
  "(\<forall>(k, opts) \<in> set sch. \<forall>v. field b k = Some v \<longrightarrow> cast (ptype opts) v \<noteq> None)
   \<Longrightarrow> \<exists>d. cast_paths sch b = Inr d"
proof (induction sch)
  case Nil
  then show ?case by simp
next
  case (Cons a sch)
  obtain k0 opts0 where a: "a = (k0, opts0)" by (cases a)
  from Cons obtain d where d: "cast_paths sch b = Inr d" by auto
  from Cons.prems have c: "\<forall>v. field b k0 = Some v \<longrightarrow> cast (ptype opts0) v \<noteq> None"
    by (simp add: a)
  show ?case
  proof (cases "field b k0")
    case None
    with d show ?thesis by (simp add: a cast_paths_Cons_None)
  next
    case (Some v)
    with c obtain x where "cast (ptype opts0) v = Some x" by auto
    with Some d show ?thesis by (simp add: a cast_paths_Cons_Some)
  qed
qed

lemma cast_paths_distinct:
  "cast_paths sch b = Inr d \<Longrightarrow> distinct (map fst sch) \<Longrightarrow> distinct (map fst d)"
proof (induction sch arbitrary: d)
  case Nil
  then show ?case by simp
next
  case (Cons a sch)
  obtain k opts where a: "a = (k, opts)" by (cases a)
  from Cons.prems have dist: "distinct (map fst sch)" and fresh: "k \<notin> fst ` set sch"
    by (auto simp: a)
  show ?case
  proof (cases "field b k")
    case None
    with Cons.prems have "cast_paths sch b = Inr d" by (simp add: a cast_paths_Cons)
    from Cons.IH [OF this dist] show ?thesis .
  next
    case (Some v)
    with Cons.prems obtain x d' where d': "cast_paths sch b = Inr d'" and d: "d = (k, x) # d'"
      by (auto simp: a cast_paths_Cons)
    from cast_paths_keys [OF d'] fresh have "k \<notin> fst ` set d'" by auto
    with Cons.IH [OF d' dist] show ?thesis by (simp add: d)
  qed
qed

lemma map_of_fold_set_path:
  "distinct (map fst sets) \<Longrightarrow>
   map_of (fold (\<lambda>(k, v). set_path k v) sets d) k' =
     (case map_of sets k' of Some x \<Rightarrow> Some x | None \<Rightarrow> map_of d k')"
proof (induction sets arbitrary: d)
  case Nil
  show ?case by simp
next
  case (Cons a sets)
  obtain k v where a: "a = (k, v)" by (cases a)
  from Cons.prems have dist: "distinct (map fst sets)" and fresh: "k \<notin> fst ` set sets"
    by (auto simp: a)
  have none: "map_of sets k = None" using fresh by (rule map_of_None_keys)
  from Cons.IH [OF dist, of "set_path k v d"] none show ?case
    by (simp add: a map_of_set_path split: option.splits)
qed


lemma findById_Some: "findById i st = Some it \<Longrightarrow> oid it = i \<and> it \<in> set st"
  unfolding findById_def by (induction st) (auto split: if_splits)

lemma set_replace: "set (replace it' st) \<subseteq> insert it' (set st)"
  by (induction st) auto

lemma findById_replace:
  "findById (oid it') st \<noteq> None \<Longrightarrow> findById (oid it') (replace it' st) = Some it'"
  unfolding findById_def by (induction st) auto

lemma findById_append_new:
  "findById (oid it) st = None \<Longrightarrow> findById (oid it) (st @ [it]) = Some it"
  unfolding findById_def by (induction st) (auto split: if_splits)

lemma save_Inr:
  "save e obj st = Inr r \<longleftrightarrow>
     (\<exists>d. cast_paths itemSchema obj = Inr d \<and> validate_paths itemSchema d = None \<and> db_up e
        \<and> findById (new_oid e) st = None
        \<and> r = (\<lparr>oid = new_oid e, doc = d, createdAt = clock e, updatedAt = clock e, version = 0\<rparr>,
                st @ [\<lparr>oid = new_oid e, doc = d, createdAt = clock e, updatedAt = clock e, version = 0\<rparr>]))"
  by (cases "cast_paths itemSchema obj")
     (auto simp: save_def Let_def split: option.splits)

lemma doc_apply_update:
  "doc (apply_update e upd sets it) = fold (\<lambda>(k, v). set_path k v) sets (doc it)"
  by (simp add: apply_update_def Let_def split: own_effect.split)

lemma oid_apply_update: "oid (apply_update e upd sets it) = oid it"
  by (simp add: apply_update_def Let_def split: own_effect.split)

lemma apply_update_plain:
  "\<not> mentions_own upd \<Longrightarrow>
   apply_update e upd sets it
     = it\<lparr>doc := fold (\<lambda>(k, v). set_path k v) sets (doc it), updatedAt := clock e\<rparr>"
  by (simp add: apply_update_def)

lemma findByIdAndUpdate_Inr:
  "findByIdAndUpdate e p upd st = Inr r \<longleftrightarrow>
     (\<exists>i sets. p = Oid i \<and> cast_paths itemSchema upd = Inr sets \<and> refused e upd = None
        \<and> db_up e
        \<and> (case findById i st of
              None \<Rightarrow> r = (None, st)
            | Some it \<Rightarrow>
                r = (Some (apply_update e upd sets it),
                     replace (apply_update e upd sets it) st)))"
  by (cases p; cases "cast_paths itemSchema upd"; cases "refused e upd";
      cases "findById (case p of Oid i \<Rightarrow> i | BadId \<Rightarrow> 0) st")
     (auto simp: findByIdAndUpdate_def Let_def)

lemma findByIdAndDelete_Inr:
  "findByIdAndDelete e p st = Inr r \<longleftrightarrow>
     (\<exists>i. p = Oid i \<and> db_up e
        \<and> (case findById i st of
              None \<Rightarrow> r = (None, st)
            | Some it \<Rightarrow> r = (Some it, filter (\<lambda>x. oid x \<noteq> i) st)))"
  by (cases p; cases "findById (case p of Oid i \<Rightarrow> i | BadId \<Rightarrow> 0) st")
     (auto simp: findByIdAndDelete_def)

section \<open>Routes\<close>

lemma validated_fail:
  "validationResult b \<noteq> [] \<Longrightarrow>
   validated h b st = (\<lparr>status = 400, payload = ValidationFailed (validationResult b)\<rparr>, st)"
  by (simp add: validated_def validateItem_def)

lemma validated_ok: "validationResult b = [] \<Longrightarrow> validated h b st = h (sanitized b) st"
  by (simp add: validated_def validateItem_def)

lemma put_item_status:
  "status (fst (put_item e p b st)) =
     (case findByIdAndUpdate e p b st of
        Inl err \<Rightarrow> 400 | Inr (None, st') \<Rightarrow> 404 | Inr (Some it, st') \<Rightarrow> 200)"
  by (simp add: put_item_def split: sum.split option.split prod.split)

lemma put_item_unknown_store:
  "findById i st = None \<Longrightarrow> snd (put_item e (Oid i) b st) = st"
  by (cases "cast_paths itemSchema b"; cases "refused e b")
     (simp_all add: put_item_def findByIdAndUpdate_def)

lemma validated_store:
  "(\<And>b'. snd (h b' st) = st) \<Longrightarrow> snd (validated h b st) = st"
  by (cases "validationResult b = []") (simp_all add: validated_ok validated_fail)

lemma itemSchema_keys: "map fst itemSchema = [''name'', ''quantity'', ''location'', ''description'']"
  by (simp add: itemSchema_def)

lemma sanitized_castable:
  assumes "validationResult b = []"
  shows "\<forall>(k, opts) \<in> set itemSchema. \<forall>v. field (sanitized b) k = Some v \<longrightarrow> cast (ptype opts) v \<noteq> None"
proof -
  from assms have q: "isInt_min0 (toString (field b ''quantity''))"
    by (simp add: validationResult_empty)
  then obtain v where v: "field b ''quantity'' = Some v"
    by (cases "field b ''quantity''") (auto simp: isInt_min0_def int_regex_def)
  with q isInt_min0_cast [of v] have "cast Number v \<noteq> None" by auto
  with v show ?thesis
    by (auto simp: itemSchema_def field_sanitized)
qed

lemma cast_sanitized:
  "validationResult b = [] \<Longrightarrow> \<exists>sets. cast_paths itemSchema (sanitized b) = Inr sets"
  by (rule cast_paths_total) (rule sanitized_castable)

lemma save_down: "\<not> db_up e \<Longrightarrow> \<exists>err. save e obj st = Inl err"
  by (cases "cast_paths itemSchema obj")
     (auto simp: save_def split: option.splits)

lemma findByIdAndUpdate_down: "\<not> db_up e \<Longrightarrow> \<exists>err. findByIdAndUpdate e p upd st = Inl err"
  by (cases p; cases "cast_paths itemSchema upd"; cases "refused e upd")
     (auto simp: findByIdAndUpdate_def)

lemma findByIdAndDelete_down: "\<not> db_up e \<Longrightarrow> \<exists>err. findByIdAndDelete e p st = Inl err"
  by (cases p) (auto simp: findByIdAndDelete_def)

lemma post_item_Inl: "save e (pick [''name'', ''quantity'', ''description''] b) st = Inl err \<Longrightarrow>
  post_item e b st = (\<lparr>status = 400, payload = Failure err\<rparr>, st)"
  by (simp add: post_item_def)

lemma put_item_Inl: "findByIdAndUpdate e p b st = Inl err \<Longrightarrow>
  put_item e p b st = (\<lparr>status = 400, payload = Failure err\<rparr>, st)"
  by (simp add: put_item_def)

lemma delete_item_Inl: "findByIdAndDelete e p st = Inl err \<Longrightarrow>
  delete_item e p st = (\<lparr>status = 500, payload = Failure err\<rparr>, st)"
  by (simp add: delete_item_def)

lemma validated_400:
  "(\<And>b'. status (fst (h b' st)) = 400) \<Longrightarrow> status (fst (validated h b st)) = 400"
  by (cases "validationResult b = []") (simp_all add: validated_ok validated_fail)

lemma router_down_store: "\<not> db_up e \<Longrightarrow> snd (router e rq st) = st"
proof -
  assume down: "\<not> db_up e"
  have post: "snd (post_item e b st) = st" for b
    using save_down [OF down] post_item_Inl [of e b st] by (metis snd_conv)
  have put: "snd (put_item e p b st) = st" for p b
    using findByIdAndUpdate_down [OF down] put_item_Inl [of e p b st] by (metis snd_conv)
  have del: "snd (delete_item e p st) = st" for p
    using findByIdAndDelete_down [OF down] delete_item_Inl [of e p st] by (metis snd_conv)
  have get: "snd (get_items e st) = st"
    by (simp add: get_items_def find_sorted_def)
  show ?thesis
    by (cases "rmethod rq"; cases "rpath rq")
       (simp_all add: router_def post put del get validated_store)
qed

section \<open>Invariants of the store\<close>

lemma get_items_store: "snd (get_items e st) = st"
  by (simp add: get_items_def split: sum.split)

lemma delete_item_store: "set (snd (delete_item e p st)) \<subseteq> set st"
proof (cases "findByIdAndDelete e p st")
  case (Inl err)
  then show ?thesis by (simp add: delete_item_def)
next
  case (Inr r)
  then obtain i where "case findById i st of None \<Rightarrow> r = (None, st)
      | Some it \<Rightarrow> r = (Some it, filter (\<lambda>x. oid x \<noteq> i) st)"
    by (auto simp: findByIdAndDelete_Inr)
  with Inr show ?thesis
    by (cases "findById i st") (auto simp: delete_item_def)
qed

lemma post_item_store:
  "snd (post_item e b st) = st
   \<or> (\<exists>d. cast_paths itemSchema (pick [''name'', ''quantity'', ''description''] b) = Inr d
          \<and> validate_paths itemSchema d = None
          \<and> snd (post_item e b st)
              = st @ [\<lparr>oid = new_oid e, doc = d, createdAt = clock e, updatedAt = clock e, version = 0\<rparr>])"
proof (cases "save e (pick [''name'', ''quantity'', ''description''] b) st")
  case (Inl err)
  then show ?thesis by (simp add: post_item_def)
next
  case (Inr r)
  then obtain d where "cast_paths itemSchema (pick [''name'', ''quantity'', ''description''] b) = Inr d"
    and "validate_paths itemSchema d = None"
    and "r = (\<lparr>oid = new_oid e, doc = d, createdAt = clock e, updatedAt = clock e, version = 0\<rparr>,
              st @ [\<lparr>oid = new_oid e, doc = d, createdAt = clock e, updatedAt = clock e, version = 0\<rparr>])"
    unfolding save_Inr by blast
  with Inr show ?thesis by (simp add: post_item_def)
qed

lemma put_item_store:
  "snd (put_item e p b st) = st
   \<or> (\<exists>it sets. it \<in> set st \<and> cast_paths itemSchema b = Inr sets
          \<and> snd (put_item e p b st) = replace (apply_update e b sets it) st)"
proof (cases "findByIdAndUpdate e p b st")
  case (Inl err)
  then show ?thesis by (simp add: put_item_def)
next
  case (Inr r)
  then obtain i sets where sets: "cast_paths itemSchema b = Inr sets"
    and r: "case findById i st of
              None \<Rightarrow> r = (None, st)
            | Some it \<Rightarrow>
                r = (Some (apply_update e b sets it), replace (apply_update e b sets it) st)"
    by (auto simp: findByIdAndUpdate_Inr)
  show ?thesis
  proof (cases "findById i st")
    case None
    with r Inr show ?thesis by (simp add: put_item_def)
  next
    case (Some it)
    with r Inr sets findById_Some [OF Some] show ?thesis
      by (auto simp: put_item_def)
  qed
qed

lemma router_invariant:
  assumes created: "\<And>obj d. cast_paths itemSchema obj = Inr d \<Longrightarrow>
                      validate_paths itemSchema d = None \<Longrightarrow> P d"
      and updated: "\<And>b sets d. validationResult b = [] \<Longrightarrow>
                      cast_paths itemSchema (sanitized b) = Inr sets \<Longrightarrow> P d \<Longrightarrow>
                      P (fold (\<lambda>(k, v). set_path k v) sets d)"
      and inv: "\<forall>it \<in> set st. P (doc it)"
  shows "\<forall>it \<in> set (snd (router e rq st)). P (doc it)"
proof -
  have post: "\<forall>it \<in> set (snd (validated (post_item e) b st)). P (doc it)" for b
  proof (cases "validationResult b = []")
    case False
    with inv show ?thesis by (simp add: validated_fail)
  next
    case True
    from post_item_store [of e "sanitized b" st] created inv True show ?thesis
      by (auto simp: validated_ok)
  qed
  have put: "\<forall>it \<in> set (snd (validated (put_item e p) b st)). P (doc it)" for p b
  proof (cases "validationResult b = []")
    case False
    with inv show ?thesis by (simp add: validated_fail)
  next
    case True
    from put_item_store [of e p "sanitized b" st]
    show ?thesis
    proof
      assume "snd (put_item e p (sanitized b) st) = st"
      with inv True show ?thesis by (simp add: validated_ok)
    next
      assume "\<exists>it sets. it \<in> set st \<and> cast_paths itemSchema (sanitized b) = Inr sets
          \<and> snd (put_item e p (sanitized b) st) = replace (apply_update e (sanitized b) sets it) st"
      then obtain it sets where it: "it \<in> set st"
        and sets: "cast_paths itemSchema (sanitized b) = Inr sets"
        and st': "snd (put_item e p (sanitized b) st)
                    = replace (apply_update e (sanitized b) sets it) st"
        by blast
      from it inv have "P (doc it)" by blast
      from updated [OF True sets this]
      have "P (doc (apply_update e (sanitized b) sets it))"
        by (simp add: doc_apply_update)
      with inv set_replace [of "apply_update e (sanitized b) sets it" st]
      have "\<forall>x \<in> set (replace (apply_update e (sanitized b) sets it) st). P (doc x)"
        by blast
      with st' True show ?thesis by (simp add: validated_ok)
    qed
  qed
  have del: "\<forall>it \<in> set (snd (delete_item e p st)). P (doc it)" for p
    using delete_item_store [of e p st] inv by blast
  show ?thesis
    using post put del inv
    by (cases "rmethod rq"; cases "rpath rq") (simp_all add: router_def get_items_store)
qed

lemma run_invariant:
  assumes created: "\<And>obj d. cast_paths itemSchema obj = Inr d \<Longrightarrow>
                      validate_paths itemSchema d = None \<Longrightarrow> P d"
      and updated: "\<And>b sets d. validationResult b = [] \<Longrightarrow>
                      cast_paths itemSchema (sanitized b) = Inr sets \<Longrightarrow> P d \<Longrightarrow>
                      P (fold (\<lambda>(k, v). set_path k v) sets d)"
  shows "\<forall>it \<in> set st. P (doc it) \<Longrightarrow> \<forall>it \<in> set (run rqs st). P (doc it)"
proof (induction rqs arbitrary: st)
  case Nil
  then show ?case by simp
next
  case (Cons a rqs)
  obtain e rq where a: "a = (e, rq)" by (cases a)
  have "\<forall>it \<in> set (snd (router e rq st)). P (doc it)"
  proof (rule router_invariant)
    fix obj d
    assume "cast_paths itemSchema obj = Inr d" "validate_paths itemSchema d = None"
    then show "P d" by (rule created)
  next
    fix b sets d
    assume "validationResult b = []" "cast_paths itemSchema (sanitized b) = Inr sets" "P d"
    then show "P (fold (\<lambda>(k, v). set_path k v) sets d)" by (rule updated)
  next
    show "\<forall>it \<in> set st. P (doc it)" by (rule Cons.prems)
  qed
  from Cons.IH [OF this] show ?case by (simp add: a)
qed

lemma itemSchema_distinct: "distinct (map fst itemSchema)"
  by (simp add: itemSchema_def)

lemma cast_Number_BNum: "cast Number v = Some x \<Longrightarrow> \<exists>n. x = BNum n"
  by (cases v) (auto split: if_splits)

lemma validated_quantity:
  assumes "validationResult b = []"
  shows "\<exists>v q. field b ''quantity'' = Some v \<and> cast Number v = Some (BNum q) \<and> nonneg q"
proof -
  from assms have q: "isInt_min0 (toString (field b ''quantity''))"
    by (simp add: validationResult_empty)
  then obtain v where v: "field b ''quantity'' = Some v"
    by (cases "field b ''quantity''") (auto simp: isInt_min0_def int_regex_def)
  with q isInt_min0_cast [of v] show ?thesis by auto
qed

lemma not_below_zero: "\<not> below n 0 \<longleftrightarrow> nonneg n"
  by (cases n) auto

lemma created_quantity:
  assumes d: "cast_paths itemSchema obj = Inr d" and ok: "validate_paths itemSchema d = None"
  shows "case map_of d ''quantity'' of Some (BNum q) \<Rightarrow> nonneg q | _ \<Rightarrow> False"
proof -
  have m: "map_of d ''quantity'' = (case field obj ''quantity'' of None \<Rightarrow> None | Some v \<Rightarrow> cast Number v)"
    using cast_paths_map_of [OF d itemSchema_distinct, of "''quantity''"]
    by (simp add: itemSchema_def split: option.split)
  from ok have v: "validate_path ''quantity''
      \<lparr>ptype = Number, required = True, maxLength = None, min_value = Some 0\<rparr>
      (map_of d ''quantity'') = None"
    by (simp add: itemSchema_def split: option.splits)
  show ?thesis
  proof (cases "map_of d ''quantity''")
    case None
    with v show ?thesis by (simp add: validate_path_def)
  next
    case (Some x)
    with m obtain w where "cast Number w = Some x"
      by (cases "field obj ''quantity''") auto
    then obtain n where "x = BNum n" using cast_Number_BNum by blast
    with Some v show ?thesis by (simp add: validate_path_def not_below_zero split: if_splits)
  qed
qed

lemma updated_quantity:
  assumes ok: "validationResult b = []" and sets: "cast_paths itemSchema (sanitized b) = Inr sets"
  shows "case map_of (fold (\<lambda>(k, v). set_path k v) sets d) ''quantity'' of
           Some (BNum q) \<Rightarrow> nonneg q | _ \<Rightarrow> False"
proof -
  from validated_quantity [OF ok] obtain v q where v: "field b ''quantity'' = Some v"
    and q: "cast Number v = Some (BNum q)" "nonneg q" by blast
  have "map_of sets ''quantity'' = Some (BNum q)"
    using cast_paths_map_of [OF sets itemSchema_distinct, of "''quantity''"] v q
    by (simp add: itemSchema_def field_sanitized)
  with q show ?thesis
    by (simp add: map_of_fold_set_path [OF cast_paths_distinct [OF sets itemSchema_distinct]])
qed

lemma quantities_nonneg_iff:
  "quantities_nonneg st \<longleftrightarrow>
     (\<forall>it \<in> set st. case map_of (doc it) ''quantity'' of Some (BNum q) \<Rightarrow> nonneg q | _ \<Rightarrow> False)"
  by (simp add: quantities_nonneg_def list_all_iff get_def)

lemma negative_rejected:
  "field b ''quantity'' = Some (JNum q) \<Longrightarrow> q < 0 \<Longrightarrow> validationResult b \<noteq> []"
  by (simp add: validationResult_empty isInt_min0_negative)




lemma mentions_own_iff:
  "mentions_own upd \<longleftrightarrow>
     (\<exists>k. (k \<in> set mongoose_paths \<or> is_operator k) \<and> field upd k \<noteq> None)"
  by (auto simp: mentions_own_def list_ex_iff field_def map_of_eq_None_iff)

lemma is_operator_plain:
  "is_operator k \<Longrightarrow> k \<noteq> ''name'' \<and> k \<noteq> ''location'' \<and> k \<noteq> ''description''"
  by (auto simp: is_operator_def)








section \<open>What a successful create or update returns\<close>

lemma escape_no_angle: "CHR ''<'' \<notin> set (escape s) \<and> CHR ''>'' \<notin> set (escape s)"
  by (induction s) (simp_all add: escape_def escape_char_def)

lemma itemSchema_lookup:
  "map_of itemSchema ''name'' = Some \<lparr>ptype = String, required = True, maxLength = Some 100, min_value = None\<rparr>"
  "map_of itemSchema ''quantity'' = Some \<lparr>ptype = Number, required = True, maxLength = None, min_value = Some 0\<rparr>"
  "map_of itemSchema ''location'' = Some \<lparr>ptype = String, required = False, maxLength = None, min_value = None\<rparr>"
  "map_of itemSchema ''description'' = Some \<lparr>ptype = String, required = False, maxLength = None, min_value = None\<rparr>"
  by (simp_all add: itemSchema_def)

lemma cast_name:
  assumes d: "cast_paths itemSchema obj = Inr d" and n: "field obj ''name'' = Some (JStr s)"
  shows "map_of d ''name'' = Some (BStr s)"
  using cast_paths_map_of [OF d itemSchema_distinct, of "''name''"] n
  by (simp add: itemSchema_lookup)

lemma post_created:
  assumes ok: "validationResult b = []"
      and r: "router e \<lparr>rmethod = POST, rpath = Root, rbody = b\<rparr> st
                = (\<lparr>status = 201, payload = Item it\<rparr>, st')"
  shows "\<exists>d. cast_paths itemSchema (pick [''name'', ''quantity'', ''description''] (sanitized b)) = Inr d
           \<and> validate_paths itemSchema d = None
           \<and> findById (new_oid e) st = None
           \<and> it = \<lparr>oid = new_oid e, doc = d, createdAt = clock e, updatedAt = clock e, version = 0\<rparr>
           \<and> st' = st @ [it]"
proof (cases "save e (pick [''name'', ''quantity'', ''description''] (sanitized b)) st")
  case (Inl err)
  with ok r show ?thesis by (simp add: router_def validated_ok post_item_def)
next
  case (Inr x)
  with ok r have "x = (it, st')"
    by (cases x) (simp add: router_def validated_ok post_item_def)
  with Inr show ?thesis unfolding save_Inr by auto
qed

lemma put_updated:
  assumes ok: "validationResult b = []"
      and r: "router e \<lparr>rmethod = PUT, rpath = Segment p, rbody = b\<rparr> st
                = (\<lparr>status = 200, payload = Item it\<rparr>, st')"
  shows "\<exists>i old sets. p = Oid i \<and> findById i st = Some old
           \<and> cast_paths itemSchema (sanitized b) = Inr sets
           \<and> it = apply_update e (sanitized b) sets old
           \<and> st' = replace it st"
proof (cases "findByIdAndUpdate e p (sanitized b) st")
  case (Inl err)
  with ok r show ?thesis by (simp add: router_def validated_ok put_item_def)
next
  case (Inr x)
  with ok r have x: "x = (Some it, st')"
    by (cases x; cases "fst x") (auto simp: router_def validated_ok put_item_def)
  from Inr obtain i sets where p: "p = Oid i" and sets: "cast_paths itemSchema (sanitized b) = Inr sets"
    and c: "case findById i st of
              None \<Rightarrow> x = (None, st)
            | Some old \<Rightarrow>
                x = (Some (apply_update e (sanitized b) sets old),
                     replace (apply_update e (sanitized b) sets old) st)"
    unfolding findByIdAndUpdate_Inr by blast
  show ?thesis
  proof (cases "findById i st")
    case None
    with c x show ?thesis by simp
  next
    case (Some old)
    with c x p sets show ?thesis by auto
  qed
qed

lemma nonempty_sanitized: "escape (trim n) \<noteq> [] \<Longrightarrow> n \<noteq> []"
  by (auto simp: escape_def trim_def ltrim_def rtrim_def)

text \<open>The definitions that evaluate a request on concrete data.\<close>

lemma isInt_min0_digits: "isInt_min0 (digits n)"
  by (simp add: isInt_min0_def int_regex_digits js_Number_digits to_double_nonneg)

lemma isInt_min0_minus_digits: "0 < n \<Longrightarrow> \<not> isInt_min0 (CHR ''-'' # digits n)"
  by (simp add: isInt_min0_def js_Number_minus_digits negate_to_double_pos)

lemmas route_eval =
  router_def validated_def validateItem_def validationResult_def
  check_name_def check_quantity_def check_optional_string_def field_def
  isInt_min0_digits isInt_min0_minus_digits to_double_small shortest_decimal_small
  sanitized_def sanitize_name_def sanitize_optional_string_def
  trim_def ltrim_def rtrim_def is_space_def escape_def escape_char_def
  post_item_def pick_def save_def put_item_def findByIdAndUpdate_def
  mentions_own_def is_operator_def mongoose_paths_def refused_def apply_update_def
  delete_item_def findByIdAndDelete_def get_items_def find_sorted_def
  itemSchema_def cast_paths.simps(2) validate_path_def findById_def get_def Let_def

section \<open>The claims\<close>

text \<open>
  C1. The claim: a GET request to \<^verbatim>\<open>/api/items/{id}\<close> answers 200 with the record when the
  id is stored and 404 when it is not. The router declares no \<^verbatim>\<open>GET /:id\<close> route, so the
  request matches nothing and the answer is the 404 of the framework for every id, stored
  or not; the store is not touched.
\<close>

theorem get_by_id_no_route:
  "router e \<lparr>rmethod = GET, rpath = Segment p, rbody = b\<rparr> st
     = (\<lparr>status = 404, payload = NoRoute\<rparr>, st)"
  by (simp add: router_def)

theorem get_by_id_counterexample:
  "findById 3 [\<lparr>oid = 3, doc = [(''name'', BStr ''Test Item''), (''quantity'', BNum (Num 1))],
                 createdAt = 1, updatedAt = 1, version = 0\<rparr>]
     = Some \<lparr>oid = 3, doc = [(''name'', BStr ''Test Item''), (''quantity'', BNum (Num 1))],
              createdAt = 1, updatedAt = 1, version = 0\<rparr>
   \<and> status (fst (router \<lparr>clock = 5, new_oid = 4, db_up = True, own_paths = Store 0 0 0\<rparr>
                       \<lparr>rmethod = GET, rpath = Segment (Oid 3), rbody = []\<rparr>
                       [\<lparr>oid = 3, doc = [(''name'', BStr ''Test Item''), (''quantity'', BNum (Num 1))],
                          createdAt = 1, updatedAt = 1, version = 0\<rparr>])) \<noteq> 200"
  by (simp add: router_def findById_def)

text \<open>
  C2. The claim: a PUT to an id that is not stored, with a body that holds only the name,
  answers 404 and leaves the store unchanged. \<^verbatim>\<open>validateItem\<close> stands in front of the PUT
  route too and requires the quantity, so such a body is answered 400. As amended: a PUT to
  an id that is not stored leaves the store unchanged, whatever the body; a body with only
  the name is answered 400; a body over the four declared paths that passes the validation
  is answered 404 when the database can be reached.
\<close>

theorem put_unknown_id:
  assumes "findById i st = None"
  shows "snd (router e \<lparr>rmethod = PUT, rpath = Segment (Oid i), rbody = b\<rparr> st) = st
       \<and> (fst ` set b \<subseteq> {''name''} \<longrightarrow>
            status (fst (router e \<lparr>rmethod = PUT, rpath = Segment (Oid i), rbody = b\<rparr> st)) = 400)
       \<and> (fst ` set b \<subseteq> set (map fst itemSchema) \<and> validationResult b = [] \<and> db_up e \<longrightarrow>
            status (fst (router e \<lparr>rmethod = PUT, rpath = Segment (Oid i), rbody = b\<rparr> st)) = 404)"
proof -
  have same: "snd (router e \<lparr>rmethod = PUT, rpath = Segment (Oid i), rbody = b\<rparr> st) = st"
    using assms by (simp add: router_def validated_store put_item_unknown_store)
  have only_name: "status (fst (router e \<lparr>rmethod = PUT, rpath = Segment (Oid i), rbody = b\<rparr> st)) = 400"
    if "fst ` set b \<subseteq> {''name''}"
  proof -
    from that have "field b ''quantity'' = None"
      by (auto simp: field_def map_of_eq_None_iff)
    then have "validationResult b \<noteq> []"
      by (simp add: validationResult_empty isInt_min0_def int_regex_def)
    then show ?thesis by (simp add: router_def validated_fail)
  qed
  have valid: "status (fst (router e \<lparr>rmethod = PUT, rpath = Segment (Oid i), rbody = b\<rparr> st)) = 404"
    if keys: "fst ` set b \<subseteq> set (map fst itemSchema)" and ok: "validationResult b = []"
      and up: "db_up e"
  proof -
    have "field (sanitized b) k = None" if "k \<in> set mongoose_paths \<or> is_operator k" for k
    proof -
      from that keys have "k \<notin> fst ` set b"
        by (auto simp: mongoose_paths_def itemSchema_keys is_operator_def)
      then have "field b k = None" by (simp add: field_def map_of_eq_None_iff)
      moreover from that have "k \<noteq> ''name''" "k \<noteq> ''location''" "k \<noteq> ''description''"
        by (auto simp: mongoose_paths_def is_operator_def)
      ultimately show ?thesis by (simp add: field_sanitized)
    qed
    then have "\<not> mentions_own (sanitized b)"
      by (auto simp: mentions_own_iff)
    then have free: "refused e (sanitized b) = None" by (simp add: refused_def)
    from cast_sanitized [OF ok] obtain sets where "cast_paths itemSchema (sanitized b) = Inr sets" ..
    with up assms free have "findByIdAndUpdate e (Oid i) (sanitized b) st = Inr (None, st)"
      by (simp add: findByIdAndUpdate_def)
    with ok show ?thesis by (simp add: router_def validated_ok put_item_status)
  qed
  from same only_name valid show ?thesis by blast
qed

theorem put_unknown_id_witness:
  "findById 3 [] = None
   \<and> fst ` set [(''name'', JStr ''X'')] \<subseteq> {''name''}
   \<and> router \<lparr>clock = 5, new_oid = 4, db_up = True, own_paths = Store 0 0 0\<rparr>
         \<lparr>rmethod = PUT, rpath = Segment (Oid 3), rbody = [(''name'', JStr ''X'')]\<rparr> []
       = (\<lparr>status = 400,
           payload = ValidationFailed
             [VErr ''quantity'' ''Quantity must be a non-negative integer'']\<rparr>, [])
   \<and> fst ` set [(''name'', JStr ''Nope''), (''quantity'', JNum 1)] \<subseteq> set (map fst itemSchema)
   \<and> validationResult [(''name'', JStr ''Nope''), (''quantity'', JNum 1)] = []
   \<and> db_up \<lparr>clock = 5, new_oid = 4, db_up = True, own_paths = Store 0 0 0\<rparr>
   \<and> status (fst (router \<lparr>clock = 5, new_oid = 4, db_up = True, own_paths = Store 0 0 0\<rparr>
         \<lparr>rmethod = PUT, rpath = Segment (Oid 3),
          rbody = [(''name'', JStr ''Nope''), (''quantity'', JNum 1)]\<rparr> [])) = 404
   \<and> snd (router \<lparr>clock = 5, new_oid = 4, db_up = True, own_paths = Store 0 0 0\<rparr>
         \<lparr>rmethod = PUT, rpath = Segment (Oid 3),
          rbody = [(''name'', JStr ''Nope''), (''quantity'', JNum 1)]\<rparr> []) = []"
proof -
  have h: "findById 3 [] = None" by (simp add: findById_def)
  have v: "validationResult [(''name'', JStr ''Nope''), (''quantity'', JNum 1)] = []"
    by (simp add: validationResult_empty field_def isInt_min0_safe optional_string_def)
  have x: "router \<lparr>clock = 5, new_oid = 4, db_up = True, own_paths = Store 0 0 0\<rparr>
         \<lparr>rmethod = PUT, rpath = Segment (Oid 3), rbody = [(''name'', JStr ''X'')]\<rparr> []
       = (\<lparr>status = 400,
           payload = ValidationFailed
             [VErr ''quantity'' ''Quantity must be a non-negative integer'']\<rparr>, [])"
    by (simp add: router_def validated_def validateItem_def validationResult_def
      check_name_def check_quantity_def check_optional_string_def field_def
      isInt_min0_def int_regex_def)
  show ?thesis
    using h v x
      put_unknown_id [OF h, of "\<lparr>clock = 5, new_oid = 4, db_up = True, own_paths = Store 0 0 0\<rparr>"
        "[(''name'', JStr ''X'')]"]
      put_unknown_id [OF h, of "\<lparr>clock = 5, new_oid = 4, db_up = True, own_paths = Store 0 0 0\<rparr>"
        "[(''name'', JStr ''Nope''), (''quantity'', JNum 1)]"]
    by (simp add: itemSchema_keys)
qed

theorem put_name_only_counterexample:
  "findById 3 [] = None
   \<and> status (fst (router \<lparr>clock = 5, new_oid = 4, db_up = True, own_paths = Store 0 0 0\<rparr>
         \<lparr>rmethod = PUT, rpath = Segment (Oid 3), rbody = [(''name'', JStr ''X'')]\<rparr> [])) \<noteq> 404"
  by (simp add: findById_def router_def validated_def validateItem_def validationResult_def
      check_name_def check_quantity_def check_optional_string_def field_def
      isInt_min0_def int_regex_def)

text \<open>
  C3. The claim: when the storage layer fails, every operation answers 500, POST and
  PUT included. Each handler maps whatever its persistence call throws to one fixed status:
  500 in \<^verbatim>\<open>GET /\<close> and \<^verbatim>\<open>DELETE /:id\<close>, 400 in \<^verbatim>\<open>POST /\<close> and \<^verbatim>\<open>PUT /:id\<close>. As
  amended: with the database out of reach, listing and deleting answer 500, creating and
  updating answer 400, and no request changes the store.
\<close>

theorem storage_failure_status:
  assumes "\<not> db_up e"
  shows "status (fst (router e \<lparr>rmethod = GET, rpath = Root, rbody = b\<rparr> st)) = 500
       \<and> status (fst (router e \<lparr>rmethod = DELETE, rpath = Segment p, rbody = b\<rparr> st)) = 500
       \<and> status (fst (router e \<lparr>rmethod = POST, rpath = Root, rbody = b\<rparr> st)) = 400
       \<and> status (fst (router e \<lparr>rmethod = PUT, rpath = Segment p, rbody = b\<rparr> st)) = 400
       \<and> snd (router e rq st) = st"
proof -
  have list: "status (fst (get_items e st)) = 500"
    using assms by (simp add: get_items_def find_sorted_def)
  have del: "status (fst (delete_item e p st)) = 500"
    using findByIdAndDelete_down [OF assms, of p st] delete_item_Inl [of e p st] by auto
  have post: "status (fst (post_item e b' st)) = 400" for b'
    using save_down [OF assms] post_item_Inl [of e b' st]
    by (metis fst_conv response.select_convs(1))
  have put: "status (fst (put_item e p b' st)) = 400" for b'
    using findByIdAndUpdate_down [OF assms] put_item_Inl [of e p b' st]
    by (metis fst_conv response.select_convs(1))
  from list del post put router_down_store [OF assms] show ?thesis
    by (simp add: router_def validated_400)
qed

theorem storage_failure_status_witness:
  "\<not> db_up \<lparr>clock = 5, new_oid = 4, db_up = False, own_paths = Store 0 0 0\<rparr>
   \<and> status (fst (router \<lparr>clock = 5, new_oid = 4, db_up = False, own_paths = Store 0 0 0\<rparr>
         \<lparr>rmethod = GET, rpath = Root, rbody = []\<rparr> [])) = 500
   \<and> status (fst (router \<lparr>clock = 5, new_oid = 4, db_up = False, own_paths = Store 0 0 0\<rparr>
         \<lparr>rmethod = DELETE, rpath = Segment (Oid 3), rbody = []\<rparr> [])) = 500
   \<and> status (fst (router \<lparr>clock = 5, new_oid = 4, db_up = False, own_paths = Store 0 0 0\<rparr>
         \<lparr>rmethod = POST, rpath = Root, rbody = []\<rparr> [])) = 400
   \<and> status (fst (router \<lparr>clock = 5, new_oid = 4, db_up = False, own_paths = Store 0 0 0\<rparr>
         \<lparr>rmethod = PUT, rpath = Segment (Oid 3), rbody = []\<rparr> [])) = 400"
  using storage_failure_status [of "\<lparr>clock = 5, new_oid = 4, db_up = False, own_paths = Store 0 0 0\<rparr>" "[]" "[]" "Oid 3"]
  by simp

theorem post_storage_failure_counterexample:
  "router \<lparr>clock = 5, new_oid = 4, db_up = False, own_paths = Store 0 0 0\<rparr>
     \<lparr>rmethod = POST, rpath = Root,
      rbody = [(''name'', JStr ''Laptop''), (''quantity'', JNum 10)]\<rparr> []
   = (\<lparr>status = 400, payload = Failure StorageError\<rparr>, [])"
  by (simp add: route_eval)

text \<open>
  C4. The claim: a valid create request with a location returns and stores a record whose
  location is the submitted one, trimmed. The POST handler builds the document from
  \<^verbatim>\<open>{ name, quantity, description }\<close> and leaves the location behind, although the
  validation chain sanitizes it and the schema and the PUT route keep it: the record that
  is created has no location.
\<close>

theorem post_drops_location:
  "router \<lparr>clock = 5, new_oid = 1, db_up = True, own_paths = Store 0 0 0\<rparr>
     \<lparr>rmethod = POST, rpath = Root,
      rbody = [(''name'', JStr ''Laptop''), (''quantity'', JNum 10),
               (''location'', JStr ''Warehouse A'')]\<rparr> []
   = (\<lparr>status = 201,
       payload = Item \<lparr>oid = 1, doc = [(''name'', BStr ''Laptop''), (''quantity'', BNum (Num 10))],
                        createdAt = 5, updatedAt = 5, version = 0\<rparr>\<rparr>,
      [\<lparr>oid = 1, doc = [(''name'', BStr ''Laptop''), (''quantity'', BNum (Num 10))],
         createdAt = 5, updatedAt = 5, version = 0\<rparr>])
   \<and> get \<lparr>oid = 1, doc = [(''name'', BStr ''Laptop''), (''quantity'', BNum (Num 10))],
            createdAt = 5, updatedAt = 5, version = 0\<rparr> ''location'' = None"
  by (simp add: route_eval)

text \<open>
  C5. The claim: every stored name is non-empty and at most 100 characters long under every
  operation, and an update with a longer name is rejected. The schema bounds the name and
  \<^verbatim>\<open>save()\<close> checks the bound on create, but the PUT route updates through
  \<^verbatim>\<open>findByIdAndUpdate\<close> without \<^verbatim>\<open>runValidators\<close>, and \<^verbatim>\<open>validateItem\<close> checks no
  length and looks for emptiness before it trims: an update stores a name of 101
  characters, and it stores the empty name when the submitted one is blank.
\<close>

theorem put_breaks_name_bounds:
  "router \<lparr>clock = 5, new_oid = 4, db_up = True, own_paths = Store 0 0 0\<rparr>
     \<lparr>rmethod = PUT, rpath = Segment (Oid 3),
      rbody = [(''name'', JStr (replicate 101 CHR ''a'')), (''quantity'', JNum 1)]\<rparr>
     [\<lparr>oid = 3, doc = [(''name'', BStr ''Test Item''), (''quantity'', BNum (Num 1))],
        createdAt = 1, updatedAt = 1, version = 0\<rparr>]
   = (\<lparr>status = 200,
       payload = Item \<lparr>oid = 3, doc = [(''name'', BStr (replicate 101 CHR ''a'')), (''quantity'', BNum (Num 1))],
                        createdAt = 1, updatedAt = 5, version = 0\<rparr>\<rparr>,
      [\<lparr>oid = 3, doc = [(''name'', BStr (replicate 101 CHR ''a'')), (''quantity'', BNum (Num 1))],
         createdAt = 1, updatedAt = 5, version = 0\<rparr>])
   \<and> 100 < length (replicate 101 CHR ''a'')
   \<and> router \<lparr>clock = 5, new_oid = 4, db_up = True, own_paths = Store 0 0 0\<rparr>
       \<lparr>rmethod = PUT, rpath = Segment (Oid 3),
        rbody = [(''name'', JStr ''   ''), (''quantity'', JNum 1)]\<rparr>
       [\<lparr>oid = 3, doc = [(''name'', BStr ''Test Item''), (''quantity'', BNum (Num 1))],
          createdAt = 1, updatedAt = 1, version = 0\<rparr>]
     = (\<lparr>status = 200,
         payload = Item \<lparr>oid = 3, doc = [(''name'', BStr []), (''quantity'', BNum (Num 1))],
                          createdAt = 1, updatedAt = 5, version = 0\<rparr>\<rparr>,
        [\<lparr>oid = 3, doc = [(''name'', BStr []), (''quantity'', BNum (Num 1))],
           createdAt = 1, updatedAt = 5, version = 0\<rparr>])"
  by (simp add: route_eval)




text \<open>
  C7. The claim: every payload with a non-empty string name and a non-negative integer
  quantity is answered 201 with a record whose name and quantity are the submitted ones and
  whose id and timestamps are new. The name is stored trimmed and HTML-escaped, and
  \<^verbatim>\<open>save()\<close> refuses a name that is empty or longer than 100 characters in that form. As
  amended: when the sanitized name is non-empty and at most 100 characters long, the
  quantity is a JSON number that is a non-negative safe integer (below \<open>2 ^ 53\<close>, so that the
  number read from the body is the number sent), location and description are strings where
  present, the database can be reached and the id minted for the new document is not
  already stored, the answer is 201 with a record that holds the sanitized name, the
  submitted quantity, the new id, the current time as both timestamps and version 0, and
  the record is stored. Above \<open>2 ^ 53\<close> the quantity stored is the nearest double, not always
  the integer sent, and from \<open>10 ^ 21\<close> a JSON number is refused with 400.
\<close>

theorem create_valid_payload:
  assumes name: "field b ''name'' = Some (JStr n)"
      and nonempty: "escape (trim n) \<noteq> []"
      and bound: "length (escape (trim n)) \<le> 100"
      and quantity: "field b ''quantity'' = Some (JNum q)" "0 \<le> q" "q < 2 ^ 53"
      and optional: "optional_string (field b ''location'')"
                    "optional_string (field b ''description'')"
      and up: "db_up e"
      and fresh: "findById (new_oid e) st = None"
  shows "\<exists>it. router e \<lparr>rmethod = POST, rpath = Root, rbody = b\<rparr> st
                = (\<lparr>status = 201, payload = Item it\<rparr>, st @ [it])
              \<and> get it ''name'' = Some (BStr (escape (trim n)))
              \<and> get it ''quantity'' = Some (BNum (Num q))
              \<and> oid it = new_oid e \<and> createdAt it = clock e \<and> updatedAt it = clock e
              \<and> version it = 0"
proof -
  let ?obj = "pick [''name'', ''quantity'', ''description''] (sanitized b)"
  from nonempty have "n \<noteq> []" by (rule nonempty_sanitized)
  with name quantity optional have ok: "validationResult b = []"
    by (simp add: validationResult_empty isInt_min0_safe)
  have "\<forall>(k, opts) \<in> set itemSchema. \<forall>v. field ?obj k = Some v \<longrightarrow> cast (ptype opts) v \<noteq> None"
    using sanitized_castable [OF ok] by (fastforce simp: field_pick split: if_splits)
  then obtain d where d: "cast_paths itemSchema ?obj = Inr d"
    using cast_paths_total by blast
  note m = cast_paths_map_of [OF d itemSchema_distinct]
  have dn: "map_of d ''name'' = Some (BStr (escape (trim n)))"
    using m [of "''name''"] name by (simp add: itemSchema_lookup field_pick field_sanitized)
  have dq: "map_of d ''quantity'' = Some (BNum (Num q))"
    using m [of "''quantity''"] quantity
    by (simp add: itemSchema_lookup field_pick field_sanitized to_double_small)
  have dl: "map_of d ''location'' = None"
    using m [of "''location''"] by (simp add: itemSchema_lookup field_pick)
  have dd: "map_of d ''description'' = None \<or> (\<exists>s. map_of d ''description'' = Some (BStr s))"
    using m [of "''description''"] optional(2)
    by (cases "field b ''description''")
       (auto simp: itemSchema_lookup field_pick field_sanitized optional_string_def
             split: jsval.splits)
  have valid: "validate_paths itemSchema d = None"
    using dn dq dl dd nonempty bound quantity(2)
    by (auto simp: itemSchema_def validate_path_def)
  let ?it = "\<lparr>oid = new_oid e, doc = d, createdAt = clock e, updatedAt = clock e, version = 0\<rparr>"
  from d valid up fresh have "save e ?obj st = Inr (?it, st @ [?it])"
    by (simp add: save_Inr)
  with ok have "router e \<lparr>rmethod = POST, rpath = Root, rbody = b\<rparr> st
                = (\<lparr>status = 201, payload = Item ?it\<rparr>, st @ [?it])"
    by (simp add: router_def validated_ok post_item_def)
  with dn dq show ?thesis by (auto simp: get_def)
qed

theorem create_valid_payload_witness:
  "field [(''name'', JStr '' a&b ''), (''quantity'', JNum 10)] ''name'' = Some (JStr '' a&b '')
   \<and> escape (trim '' a&b '') \<noteq> []
   \<and> length (escape (trim '' a&b '')) \<le> 100
   \<and> field [(''name'', JStr '' a&b ''), (''quantity'', JNum 10)] ''quantity'' = Some (JNum 10)
   \<and> (0 :: int) \<le> 10 \<and> (10 :: int) < 2 ^ 53
   \<and> optional_string (field [(''name'', JStr '' a&b ''), (''quantity'', JNum 10)] ''location'')
   \<and> optional_string (field [(''name'', JStr '' a&b ''), (''quantity'', JNum 10)] ''description'')
   \<and> db_up \<lparr>clock = 5, new_oid = 1, db_up = True, own_paths = Store 0 0 0\<rparr>
   \<and> findById (new_oid \<lparr>clock = 5, new_oid = 1, db_up = True, own_paths = Store 0 0 0\<rparr>) [] = None
   \<and> (\<exists>it. router \<lparr>clock = 5, new_oid = 1, db_up = True, own_paths = Store 0 0 0\<rparr>
              \<lparr>rmethod = POST, rpath = Root,
               rbody = [(''name'', JStr '' a&b ''), (''quantity'', JNum 10)]\<rparr> []
            = (\<lparr>status = 201, payload = Item it\<rparr>, [it])
          \<and> get it ''name'' = Some (BStr ''a&amp;b'')
          \<and> get it ''quantity'' = Some (BNum (Num 10))
          \<and> oid it = 1 \<and> createdAt it = 5 \<and> updatedAt it = 5 \<and> version it = 0)"
proof -
  have h: "field [(''name'', JStr '' a&b ''), (''quantity'', JNum 10)] ''name'' = Some (JStr '' a&b '')"
    "escape (trim '' a&b '') \<noteq> []"
    "length (escape (trim '' a&b '')) \<le> 100"
    "field [(''name'', JStr '' a&b ''), (''quantity'', JNum 10)] ''quantity'' = Some (JNum 10)"
    "(0 :: int) \<le> 10" "(10 :: int) < 2 ^ 53"
    "optional_string (field [(''name'', JStr '' a&b ''), (''quantity'', JNum 10)] ''location'')"
    "optional_string (field [(''name'', JStr '' a&b ''), (''quantity'', JNum 10)] ''description'')"
    "db_up \<lparr>clock = 5, new_oid = 1, db_up = True, own_paths = Store 0 0 0\<rparr>"
    "findById (new_oid \<lparr>clock = 5, new_oid = 1, db_up = True, own_paths = Store 0 0 0\<rparr>) [] = None"
    by (simp_all add: field_def optional_string_def findById_def escape_def escape_char_def
        trim_def ltrim_def rtrim_def is_space_def)
  have t: "escape (trim '' a&b '') = ''a&amp;b''"
    by (simp add: escape_def escape_char_def trim_def ltrim_def rtrim_def is_space_def)
  from create_valid_payload [OF h] h show ?thesis
    by (simp add: t)
qed

theorem create_name_counterexample:
  "router \<lparr>clock = 5, new_oid = 1, db_up = True, own_paths = Store 0 0 0\<rparr>
     \<lparr>rmethod = POST, rpath = Root,
      rbody = [(''name'', JStr ''a&b''), (''quantity'', JNum 1)]\<rparr> []
   = (\<lparr>status = 201,
       payload = Item \<lparr>oid = 1, doc = [(''name'', BStr ''a&amp;b''), (''quantity'', BNum (Num 1))],
                        createdAt = 5, updatedAt = 5, version = 0\<rparr>\<rparr>,
      [\<lparr>oid = 1, doc = [(''name'', BStr ''a&amp;b''), (''quantity'', BNum (Num 1))],
         createdAt = 5, updatedAt = 5, version = 0\<rparr>])
   \<and> get \<lparr>oid = 1, doc = [(''name'', BStr ''a&amp;b''), (''quantity'', BNum (Num 1))],
            createdAt = 5, updatedAt = 5, version = 0\<rparr> ''name'' \<noteq> Some (BStr ''a&b'')"
  by (simp add: route_eval)

text \<open>
  C8. The claim: every stored quantity is a non-negative integer under every operation, and
  create and update answer 400 to a negative quantity and leave the store unchanged. The
  validation \<^verbatim>\<open>isInt({ min: 0 })\<close> and the schema's \<^verbatim>\<open>min: 0\<close> bound the quantity from below
  only: a quantity sent as a string of digits too long for a double (309 digits) passes
  both, is cast to \<^verbatim>\<open>Infinity\<close> and is stored, and \<^verbatim>\<open>Infinity\<close> is not an integer. As
  amended: under every operation every stored quantity is a number that is not negative (a
  non-negative integer, or \<^verbatim>\<open>Infinity\<close>), and create and update answer 400 to a negative
  quantity and leave the store unchanged.
\<close>

theorem quantity_never_negative:
  "(quantities_nonneg st \<longrightarrow> quantities_nonneg (run rqs st))
   \<and> (field b ''quantity'' = Some (JNum q) \<and> q < 0 \<longrightarrow>
        status (fst (router e \<lparr>rmethod = POST, rpath = Root, rbody = b\<rparr> st)) = 400
        \<and> snd (router e \<lparr>rmethod = POST, rpath = Root, rbody = b\<rparr> st) = st
        \<and> status (fst (router e \<lparr>rmethod = PUT, rpath = Segment p, rbody = b\<rparr> st)) = 400
        \<and> snd (router e \<lparr>rmethod = PUT, rpath = Segment p, rbody = b\<rparr> st) = st)"
proof
  have "\<forall>it \<in> set (run rqs st).
          case map_of (doc it) ''quantity'' of Some (BNum q) \<Rightarrow> nonneg q | _ \<Rightarrow> False"
    if "\<forall>it \<in> set st.
          case map_of (doc it) ''quantity'' of Some (BNum q) \<Rightarrow> nonneg q | _ \<Rightarrow> False"
    using that
  proof (rule run_invariant [rotated 2])
    fix obj d
    assume "cast_paths itemSchema obj = Inr d" "validate_paths itemSchema d = None"
    then show "case map_of d ''quantity'' of Some (BNum q) \<Rightarrow> nonneg q | _ \<Rightarrow> False"
      by (rule created_quantity)
  next
    fix c sets d
    assume "validationResult c = []" "cast_paths itemSchema (sanitized c) = Inr sets"
    then show "case map_of (fold (\<lambda>(k, v). set_path k v) sets d) ''quantity'' of
                 Some (BNum q) \<Rightarrow> nonneg q | _ \<Rightarrow> False"
      by (rule updated_quantity)
  qed
  then show "quantities_nonneg st \<longrightarrow> quantities_nonneg (run rqs st)"
    by (simp add: quantities_nonneg_iff)
next
  show "field b ''quantity'' = Some (JNum q) \<and> q < 0 \<longrightarrow>
        status (fst (router e \<lparr>rmethod = POST, rpath = Root, rbody = b\<rparr> st)) = 400
        \<and> snd (router e \<lparr>rmethod = POST, rpath = Root, rbody = b\<rparr> st) = st
        \<and> status (fst (router e \<lparr>rmethod = PUT, rpath = Segment p, rbody = b\<rparr> st)) = 400
        \<and> snd (router e \<lparr>rmethod = PUT, rpath = Segment p, rbody = b\<rparr> st) = st"
  proof
    assume "field b ''quantity'' = Some (JNum q) \<and> q < 0"
    then have "validationResult b \<noteq> []" by (simp add: negative_rejected)
    then show "status (fst (router e \<lparr>rmethod = POST, rpath = Root, rbody = b\<rparr> st)) = 400
        \<and> snd (router e \<lparr>rmethod = POST, rpath = Root, rbody = b\<rparr> st) = st
        \<and> status (fst (router e \<lparr>rmethod = PUT, rpath = Segment p, rbody = b\<rparr> st)) = 400
        \<and> snd (router e \<lparr>rmethod = PUT, rpath = Segment p, rbody = b\<rparr> st) = st"
      by (simp add: router_def validated_fail)
  qed
qed

theorem quantity_never_negative_witness:
  "quantities_nonneg [\<lparr>oid = 3, doc = [(''name'', BStr ''Test Item''), (''quantity'', BNum (Num 1))],
                       createdAt = 1, updatedAt = 1, version = 0\<rparr>]
   \<and> quantities_nonneg
        (run [(\<lparr>clock = 5, new_oid = 4, db_up = True, own_paths = Store 0 0 0\<rparr>,
               \<lparr>rmethod = PUT, rpath = Segment (Oid 3),
                rbody = [(''name'', JStr ''Updated Item''), (''quantity'', JNum 3)]\<rparr>),
              (\<lparr>clock = 6, new_oid = 4, db_up = True, own_paths = Store 0 0 0\<rparr>,
               \<lparr>rmethod = POST, rpath = Root,
                rbody = [(''name'', JStr ''Mouse''), (''quantity'', JStr ''007'')]\<rparr>)]
           [\<lparr>oid = 3, doc = [(''name'', BStr ''Test Item''), (''quantity'', BNum (Num 1))],
              createdAt = 1, updatedAt = 1, version = 0\<rparr>])
   \<and> field [(''name'', JStr ''Bad''), (''quantity'', JNum (- 2))] ''quantity'' = Some (JNum (- 2))
   \<and> (- 2 :: int) < 0
   \<and> status (fst (router \<lparr>clock = 5, new_oid = 4, db_up = True, own_paths = Store 0 0 0\<rparr>
         \<lparr>rmethod = POST, rpath = Root,
          rbody = [(''name'', JStr ''Bad''), (''quantity'', JNum (- 2))]\<rparr>
         [\<lparr>oid = 3, doc = [(''name'', BStr ''Test Item''), (''quantity'', BNum (Num 1))],
            createdAt = 1, updatedAt = 1, version = 0\<rparr>])) = 400
   \<and> status (fst (router \<lparr>clock = 5, new_oid = 4, db_up = True, own_paths = Store 0 0 0\<rparr>
         \<lparr>rmethod = PUT, rpath = Segment (Oid 3),
          rbody = [(''name'', JStr ''Bad''), (''quantity'', JNum (- 2))]\<rparr>
         [\<lparr>oid = 3, doc = [(''name'', BStr ''Test Item''), (''quantity'', BNum (Num 1))],
            createdAt = 1, updatedAt = 1, version = 0\<rparr>])) = 400"
  using quantity_never_negative [of
      "[\<lparr>oid = 3, doc = [(''name'', BStr ''Test Item''), (''quantity'', BNum (Num 1))],
          createdAt = 1, updatedAt = 1, version = 0\<rparr>]"
      "[(\<lparr>clock = 5, new_oid = 4, db_up = True, own_paths = Store 0 0 0\<rparr>,
         \<lparr>rmethod = PUT, rpath = Segment (Oid 3),
          rbody = [(''name'', JStr ''Updated Item''), (''quantity'', JNum 3)]\<rparr>),
        (\<lparr>clock = 6, new_oid = 4, db_up = True, own_paths = Store 0 0 0\<rparr>,
         \<lparr>rmethod = POST, rpath = Root,
          rbody = [(''name'', JStr ''Mouse''), (''quantity'', JStr ''007'')]\<rparr>)]"
      "[(''name'', JStr ''Bad''), (''quantity'', JNum (- 2))]" "- 2"
      "\<lparr>clock = 5, new_oid = 4, db_up = True, own_paths = Store 0 0 0\<rparr>" "Oid 3"]
  by (simp add: quantities_nonneg_def get_def field_def)

theorem quantity_infinity_counterexample:
  "quantities_valid []
   \<and> router \<lparr>clock = 5, new_oid = 1, db_up = True, own_paths = Store 0 0 0\<rparr>
       \<lparr>rmethod = POST, rpath = Root,
        rbody = [(''name'', JStr ''Bulk''),
                 (''quantity'', JStr (CHR ''2'' # replicate 308 CHR ''0''))]\<rparr> []
     = (\<lparr>status = 201,
         payload = Item \<lparr>oid = 1, doc = [(''name'', BStr ''Bulk''), (''quantity'', BNum Infinity)],
                          createdAt = 5, updatedAt = 5, version = 0\<rparr>\<rparr>,
        [\<lparr>oid = 1, doc = [(''name'', BStr ''Bulk''), (''quantity'', BNum Infinity)],
           createdAt = 5, updatedAt = 5, version = 0\<rparr>])
   \<and> \<not> quantities_valid
         [\<lparr>oid = 1, doc = [(''name'', BStr ''Bulk''), (''quantity'', BNum Infinity)],
            createdAt = 5, updatedAt = 5, version = 0\<rparr>]"
  by (simp add: quantities_valid_def huge_quantity route_eval)

text \<open>
  C9. The claim: the validation middleware trims and HTML-escapes the name, the location and
  the description before anything is persisted, so a create or an update stores and returns
  the escaped name, not the text as submitted.
\<close>

theorem names_are_escaped:
  assumes valid: "validateItem b = Inr b'" and name: "field b ''name'' = Some (JStr s)"
  shows "field b' ''name'' = Some (JStr (escape (trim s)))
       \<and> (\<forall>t. field b ''location'' = Some (JStr t) \<longrightarrow>
             field b' ''location'' = Some (JStr (escape (trim t))))
       \<and> (\<forall>t. field b ''description'' = Some (JStr t) \<longrightarrow>
             field b' ''description'' = Some (JStr (escape (trim t))))
       \<and> CHR ''<'' \<notin> set (escape (trim s)) \<and> CHR ''>'' \<notin> set (escape (trim s))
       \<and> (\<forall>it st'. router e \<lparr>rmethod = POST, rpath = Root, rbody = b\<rparr> st
                      = (\<lparr>status = 201, payload = Item it\<rparr>, st') \<longrightarrow>
             get it ''name'' = Some (BStr (escape (trim s))) \<and> findById (oid it) st' = Some it)
       \<and> (\<forall>it st'. router e \<lparr>rmethod = PUT, rpath = Segment p, rbody = b\<rparr> st
                      = (\<lparr>status = 200, payload = Item it\<rparr>, st') \<longrightarrow>
             get it ''name'' = Some (BStr (escape (trim s))) \<and> findById (oid it) st' = Some it)"
proof -
  from valid have ok: "validationResult b = []" and b': "b' = sanitized b"
    by (simp_all add: validateItem_Inr)
  have sn: "field (sanitized b) ''name'' = Some (JStr (escape (trim s)))"
    using name by (simp add: field_sanitized)
  have post: "get it ''name'' = Some (BStr (escape (trim s))) \<and> findById (oid it) st' = Some it"
    if r: "router e \<lparr>rmethod = POST, rpath = Root, rbody = b\<rparr> st
             = (\<lparr>status = 201, payload = Item it\<rparr>, st')" for it st'
  proof -
    from post_created [OF ok r] obtain d
      where d: "cast_paths itemSchema (pick [''name'', ''quantity'', ''description''] (sanitized b)) = Inr d"
        and fresh: "findById (new_oid e) st = None"
        and it: "it = \<lparr>oid = new_oid e, doc = d, createdAt = clock e, updatedAt = clock e, version = 0\<rparr>"
        and st': "st' = st @ [it]"
      by blast
    from cast_name [OF d] sn have "map_of d ''name'' = Some (BStr (escape (trim s)))"
      by (simp add: field_pick)
    with it have g: "get it ''name'' = Some (BStr (escape (trim s)))"
      by (simp add: get_def)
    from fresh it have "findById (oid it) st = None" by simp
    then have "findById (oid it) (st @ [it]) = Some it" by (rule findById_append_new)
    with g show ?thesis unfolding st' by blast
  qed
  have put: "get it ''name'' = Some (BStr (escape (trim s))) \<and> findById (oid it) st' = Some it"
    if r: "router e \<lparr>rmethod = PUT, rpath = Segment p, rbody = b\<rparr> st
             = (\<lparr>status = 200, payload = Item it\<rparr>, st')" for it st'
  proof -
    from put_updated [OF ok r] obtain i old sets
      where old: "findById i st = Some old"
        and sets: "cast_paths itemSchema (sanitized b) = Inr sets"
        and it: "it = apply_update e (sanitized b) sets old"
        and st': "st' = replace it st"
      by blast
    from cast_name [OF sets sn]
    have "map_of (doc it) ''name'' = Some (BStr (escape (trim s)))"
      by (simp add: it doc_apply_update
          map_of_fold_set_path [OF cast_paths_distinct [OF sets itemSchema_distinct]])
    moreover from findById_Some [OF old] it have "oid it = i" by (simp add: oid_apply_update)
    with old have "findById (oid it) st \<noteq> None" by simp
    then have "findById (oid it) (replace it st) = Some it" by (rule findById_replace)
    ultimately show ?thesis using st' by (simp add: get_def)
  qed
  from sn post put escape_no_angle [of "trim s"] show ?thesis
    by (simp add: b' field_sanitized)
qed

theorem names_are_escaped_witness:
  "validateItem [(''name'', JStr ''a&b''), (''quantity'', JNum 3), (''location'', JStr '' <x> ''),
                 (''description'', JStr ''5/8 '')]
     = Inr [(''name'', JStr ''a&amp;b''), (''quantity'', JNum 3), (''location'', JStr ''&lt;x&gt;''),
            (''description'', JStr ''5&#x2F;8'')]
   \<and> field [(''name'', JStr ''a&b''), (''quantity'', JNum 3), (''location'', JStr '' <x> ''),
             (''description'', JStr ''5/8 '')] ''name''
       = Some (JStr ''a&b'')
   \<and> escape (trim ''a&b'') = ''a&amp;b''
   \<and> router \<lparr>clock = 5, new_oid = 4, db_up = True, own_paths = Store 0 0 0\<rparr>
        \<lparr>rmethod = POST, rpath = Root,
         rbody = [(''name'', JStr ''a&b''), (''quantity'', JNum 3), (''location'', JStr '' <x> ''),
                  (''description'', JStr ''5/8 '')]\<rparr>
        []
      = (\<lparr>status = 201,
          payload = Item \<lparr>oid = 4, doc = [(''name'', BStr ''a&amp;b''), (''quantity'', BNum (Num 3)),
                                           (''description'', BStr ''5&#x2F;8'')],
                           createdAt = 5, updatedAt = 5, version = 0\<rparr>\<rparr>,
         [\<lparr>oid = 4, doc = [(''name'', BStr ''a&amp;b''), (''quantity'', BNum (Num 3)),
                            (''description'', BStr ''5&#x2F;8'')],
            createdAt = 5, updatedAt = 5, version = 0\<rparr>])
   \<and> router \<lparr>clock = 5, new_oid = 4, db_up = True, own_paths = Store 0 0 0\<rparr>
        \<lparr>rmethod = PUT, rpath = Segment (Oid 3),
         rbody = [(''name'', JStr ''a&b''), (''quantity'', JNum 3), (''location'', JStr '' <x> ''),
                  (''description'', JStr ''5/8 '')]\<rparr>
        [\<lparr>oid = 3, doc = [(''name'', BStr ''Test Item''), (''quantity'', BNum (Num 1))],
           createdAt = 1, updatedAt = 1, version = 0\<rparr>]
      = (\<lparr>status = 200,
          payload = Item \<lparr>oid = 3, doc = [(''name'', BStr ''a&amp;b''), (''quantity'', BNum (Num 3)),
                                           (''location'', BStr ''&lt;x&gt;''),
                                           (''description'', BStr ''5&#x2F;8'')],
                           createdAt = 1, updatedAt = 5, version = 0\<rparr>\<rparr>,
         [\<lparr>oid = 3, doc = [(''name'', BStr ''a&amp;b''), (''quantity'', BNum (Num 3)),
                            (''location'', BStr ''&lt;x&gt;''),
                            (''description'', BStr ''5&#x2F;8'')],
            createdAt = 1, updatedAt = 5, version = 0\<rparr>])
   \<and> get \<lparr>oid = 4, doc = [(''name'', BStr ''a&amp;b''), (''quantity'', BNum (Num 3)),
                            (''description'', BStr ''5&#x2F;8'')],
            createdAt = 5, updatedAt = 5, version = 0\<rparr> ''name'' = Some (BStr (escape (trim ''a&b'')))
   \<and> get \<lparr>oid = 3, doc = [(''name'', BStr ''a&amp;b''), (''quantity'', BNum (Num 3)),
                            (''location'', BStr ''&lt;x&gt;''),
                            (''description'', BStr ''5&#x2F;8'')],
            createdAt = 1, updatedAt = 5, version = 0\<rparr> ''name'' = Some (BStr (escape (trim ''a&b'')))"
proof -
  have v: "validateItem [(''name'', JStr ''a&b''), (''quantity'', JNum 3), (''location'', JStr '' <x> ''),
                 (''description'', JStr ''5/8 '')]
     = Inr [(''name'', JStr ''a&amp;b''), (''quantity'', JNum 3), (''location'', JStr ''&lt;x&gt;''),
            (''description'', JStr ''5&#x2F;8'')]"
    by (simp add: route_eval)
  have n: "field [(''name'', JStr ''a&b''), (''quantity'', JNum 3), (''location'', JStr '' <x> ''),
             (''description'', JStr ''5/8 '')] ''name''
       = Some (JStr ''a&b'')"
    by (simp add: field_def)
  have c: "router \<lparr>clock = 5, new_oid = 4, db_up = True, own_paths = Store 0 0 0\<rparr>
        \<lparr>rmethod = POST, rpath = Root,
         rbody = [(''name'', JStr ''a&b''), (''quantity'', JNum 3), (''location'', JStr '' <x> ''),
                  (''description'', JStr ''5/8 '')]\<rparr>
        []
      = (\<lparr>status = 201,
          payload = Item \<lparr>oid = 4, doc = [(''name'', BStr ''a&amp;b''), (''quantity'', BNum (Num 3)),
                                           (''description'', BStr ''5&#x2F;8'')],
                           createdAt = 5, updatedAt = 5, version = 0\<rparr>\<rparr>,
         [\<lparr>oid = 4, doc = [(''name'', BStr ''a&amp;b''), (''quantity'', BNum (Num 3)),
                            (''description'', BStr ''5&#x2F;8'')],
            createdAt = 5, updatedAt = 5, version = 0\<rparr>])"
    by (simp add: route_eval)
  have u: "router \<lparr>clock = 5, new_oid = 4, db_up = True, own_paths = Store 0 0 0\<rparr>
        \<lparr>rmethod = PUT, rpath = Segment (Oid 3),
         rbody = [(''name'', JStr ''a&b''), (''quantity'', JNum 3), (''location'', JStr '' <x> ''),
                  (''description'', JStr ''5/8 '')]\<rparr>
        [\<lparr>oid = 3, doc = [(''name'', BStr ''Test Item''), (''quantity'', BNum (Num 1))],
           createdAt = 1, updatedAt = 1, version = 0\<rparr>]
      = (\<lparr>status = 200,
          payload = Item \<lparr>oid = 3, doc = [(''name'', BStr ''a&amp;b''), (''quantity'', BNum (Num 3)),
                                           (''location'', BStr ''&lt;x&gt;''),
                                           (''description'', BStr ''5&#x2F;8'')],
                           createdAt = 1, updatedAt = 5, version = 0\<rparr>\<rparr>,
         [\<lparr>oid = 3, doc = [(''name'', BStr ''a&amp;b''), (''quantity'', BNum (Num 3)),
                            (''location'', BStr ''&lt;x&gt;''),
                            (''description'', BStr ''5&#x2F;8'')],
            createdAt = 1, updatedAt = 5, version = 0\<rparr>])"
    by (simp add: route_eval)
  have t: "escape (trim ''a&b'') = ''a&amp;b''"
    by (simp add: escape_def escape_char_def trim_def ltrim_def rtrim_def is_space_def)
  from names_are_escaped [OF v n, of "\<lparr>clock = 5, new_oid = 4, db_up = True, own_paths = Store 0 0 0\<rparr>" "[]" "Oid 3"]
    names_are_escaped [OF v n, of "\<lparr>clock = 5, new_oid = 4, db_up = True, own_paths = Store 0 0 0\<rparr>"
      "[\<lparr>oid = 3, doc = [(''name'', BStr ''Test Item''), (''quantity'', BNum (Num 1))],
          createdAt = 1, updatedAt = 1, version = 0\<rparr>]" "Oid 3"] v n c u t
  show ?thesis by simp
qed




end
